theory Spec2Isabelle
  imports Main "HOL-Library.AList"
begin

section \<open>JavaScript values and thrown errors\<close>

text \<open>
  The values that flow through \<^verbatim>\<open>frontend/js/api.js\<close>: decoded JSON bodies, cached data and
  the two empty values \<^verbatim>\<open>null\<close> and \<^verbatim>\<open>undefined\<close>, which the code tells apart
  (\<^verbatim>\<open>data === null\<close>). Numbers are kept as integers: no function modelled here computes
  on a payload number.
\<close>

datatype js =
    JUndefined
  | JNull
  | JBool bool
  | JNum int
  | JStr string
  | JArr "js list"
  | JObj "(string \<times> js) list"

text \<open>
  What a \<^verbatim>\<open>throw\<close> carries. \<open>APIError message status data\<close> is the class of lines 176-183
  (its \<^verbatim>\<open>name\<close> is \<^verbatim>\<open>'APIError'\<close>); \<open>Error name message\<close> is any other error object
  (the \<^verbatim>\<open>TypeError\<close> of a failed fetch, the \<^verbatim>\<open>AbortError\<close> of an aborted one, the
  \<^verbatim>\<open>SyntaxError\<close> of a body that is not JSON), which has a name and a message and
  neither \<^verbatim>\<open>status\<close> nor \<^verbatim>\<open>data\<close>.
\<close>

datatype js_error =
    APIError js int js
  | Error string string

fun error_name :: "js_error \<Rightarrow> string" where
  "error_name (APIError m s d) = ''APIError''"
| "error_name (Error n m) = n"

section \<open>CacheManager (lines 315-364)\<close>

text \<open>
  The \<^verbatim>\<open>Map\<close> of the class is a map from keys to items \<^verbatim>\<open>{data, expiry}\<close>. Every method
  that reads the clock takes the value of \<^verbatim>\<open>Date.now()\<close> (milliseconds, an integer) as the
  argument \<open>now\<close>, and every method that mutates the map returns the manager it leaves.
\<close>

record cache_item =
  data :: js
  expiry :: int

record CacheManager =
  cache :: "string \<rightharpoonup> cache_item"
  defaultTTL :: int

definition CacheManager_new :: "int \<Rightarrow> CacheManager" where
  "CacheManager_new ttl = \<lparr>cache = Map.empty, defaultTTL = ttl\<rparr>"

text \<open>
  \<^verbatim>\<open>get(key)\<close>: a stored item is an object, so \<^verbatim>\<open>!item\<close> holds exactly for a missing key.
  The item is deleted and \<^verbatim>\<open>null\<close> returned when \<^verbatim>\<open>Date.now() > item.expiry\<close>; otherwise
  \<^verbatim>\<open>item.data\<close> is returned, whatever it is.
\<close>

definition CacheManager_get :: "CacheManager \<Rightarrow> string \<Rightarrow> int \<Rightarrow> js \<times> CacheManager" where
  "CacheManager_get cm key now =
     (case cache cm key of
        None \<Rightarrow> (JNull, cm)
      | Some item \<Rightarrow>
          if now > expiry item
          then (JNull, cm\<lparr>cache := (cache cm)(key := None)\<rparr>)
          else (data item, cm))"

text \<open>
  \<^verbatim>\<open>set(key, data, ttl = this.defaultTTL)\<close>: the default applies when the argument is
  \<^verbatim>\<open>undefined\<close>, which is \<open>None\<close> here.
\<close>

definition CacheManager_set ::
  "CacheManager \<Rightarrow> string \<Rightarrow> js \<Rightarrow> int option \<Rightarrow> int \<Rightarrow> CacheManager" where
  "CacheManager_set cm key d ttl now =
     cm\<lparr>cache := (cache cm)(key \<mapsto>
          \<lparr>data = d, expiry = now + (case ttl of None \<Rightarrow> defaultTTL cm | Some t \<Rightarrow> t)\<rparr>)\<rparr>"

definition CacheManager_delete :: "CacheManager \<Rightarrow> string \<Rightarrow> CacheManager" where
  "CacheManager_delete cm key = cm\<lparr>cache := (cache cm)(key := None)\<rparr>"

definition CacheManager_clear :: "CacheManager \<Rightarrow> CacheManager" where
  "CacheManager_clear cm = cm\<lparr>cache := Map.empty\<rparr>"

subsection \<open>CachedApiService.cachedGet (lines 372-386)\<close>

text \<open>
  The fetcher is the zero-argument function of the source; what awaiting it yields is either
  a thrown error or a value. The fetchers of this file (\<^verbatim>\<open>() => ApiService.getTeams()\<close> and
  the like) do not touch the cache, so the fetcher does not take the manager. The lookup
  reads the clock at \<open>now\<close>, the store after the fetch at \<open>now'\<close>. The third component of the
  result records whether the fetcher was called.
\<close>

definition cachedGet ::
  "CacheManager \<Rightarrow> string \<Rightarrow> (unit \<Rightarrow> js_error + js) \<Rightarrow> int option \<Rightarrow> int \<Rightarrow> int
     \<Rightarrow> (js_error + js) \<times> CacheManager \<times> bool" where
  "cachedGet cm key fetcher ttl now now' =
     (case CacheManager_get cm key now of
        (d, cm1) \<Rightarrow>
          if d = JNull then
            (case fetcher () of
               Inr d' \<Rightarrow> (Inr d', CacheManager_set cm1 key d' ttl now', True)
             | Inl error \<Rightarrow> (Inl error, cm1, True))
          else (Inr d, cm1, False))"


text \<open>
  A driver for repeated calls: \<open>cachedGet\<close> is called once for every pair of clock readings
  of the list, each call on the cache the previous one left, and the result lists, call by
  call, whether the fetcher was invoked.
\<close>

fun cachedGet_calls ::
  "CacheManager \<Rightarrow> string \<Rightarrow> (unit \<Rightarrow> js_error + js) \<Rightarrow> int option \<Rightarrow> (int \<times> int) list
     \<Rightarrow> bool list" where
  "cachedGet_calls cm key fetcher ttl [] = []"
| "cachedGet_calls cm key fetcher ttl ((now, now') # ts) =
     (case cachedGet cm key fetcher ttl now now' of
        (r, cm', called) \<Rightarrow> called # cachedGet_calls cm' key fetcher ttl ts)"

text \<open>The key is missing, or the item stored under it holds \<^verbatim>\<open>null\<close>.\<close>

definition holds_no_value :: "CacheManager \<Rightarrow> string \<Rightarrow> bool" where
  "holds_no_value cm key =
     (case cache cm key of None \<Rightarrow> True | Some item \<Rightarrow> data item = JNull)"

section \<open>RequestQueue (lines 497-533)\<close>

text \<open>
  The fields of the class are \<open>maxConcurrent\<close>, \<open>running\<close> and \<open>queue\<close>. JavaScript runs one
  piece of code at a time, so the queue's code runs in two kinds of uninterrupted steps:
  \<^item> \<open>Add x\<close>: a call \<^verbatim>\<open>add(x)\<close>, which pushes the operation and calls \<^verbatim>\<open>processNext()\<close>;
    \<^verbatim>\<open>processNext\<close> runs up to its \<^verbatim>\<open>await request()\<close>, where the operation has been
    called and is in flight;
  \<^item> \<open>Settle x r\<close>: the rest of \<^verbatim>\<open>processNext\<close> for an operation in flight, once its promise
    has settled: \<^verbatim>\<open>resolve\<close> or \<^verbatim>\<open>reject\<close> is called, and the \<^verbatim>\<open>finally\<close> block
    decrements \<open>running\<close> and calls \<^verbatim>\<open>processNext()\<close> again.
  An operation that throws at once, or that calls \<^verbatim>\<open>add\<close> itself, is an \<open>Add\<close> followed
  directly by the matching event. The order of the events is the environment's choice.

  Three fields are added to observe a run: the operations in flight, the operations in the
  order they were started, and the settlements in the order they were delivered.
\<close>

datatype settlement = Resolved | Rejected

datatype 'a event = Add 'a | Settle 'a settlement

record 'a RequestQueue =
  maxConcurrent :: int
  running :: int
  queue :: "'a list"

record 'a RequestQueue_run = "'a RequestQueue" +
  inflight :: "'a list"
  started :: "'a list"
  settled :: "('a \<times> settlement) list"

definition RequestQueue_new :: "int \<Rightarrow> 'a RequestQueue_run" where
  "RequestQueue_new n =
     \<lparr>maxConcurrent = n, running = 0, queue = [], inflight = [], started = [], settled = []\<rparr>"

text \<open>\<^verbatim>\<open>processNext\<close> up to the \<^verbatim>\<open>await\<close>: the guard, \<^verbatim>\<open>running++\<close>, \<^verbatim>\<open>queue.shift()\<close> and the call.\<close>

definition processNext :: "'a RequestQueue_run \<Rightarrow> 'a RequestQueue_run" where
  "processNext s =
     (if maxConcurrent s \<le> running s \<or> queue s = [] then s
      else s\<lparr>running := running s + 1,
             queue := tl (queue s),
             inflight := inflight s @ [hd (queue s)],
             started := started s @ [hd (queue s)]\<rparr>)"

definition RequestQueue_add :: "'a RequestQueue_run \<Rightarrow> 'a \<Rightarrow> 'a RequestQueue_run" where
  "RequestQueue_add s x = processNext (s\<lparr>queue := queue s @ [x]\<rparr>)"

text \<open>\<^verbatim>\<open>processNext\<close> after the \<^verbatim>\<open>await\<close>, for the operation \<open>x\<close> that settled with \<open>r\<close>.\<close>

definition settle :: "'a RequestQueue_run \<Rightarrow> 'a \<Rightarrow> settlement \<Rightarrow> 'a RequestQueue_run" where
  "settle s x r =
     processNext (s\<lparr>running := running s - 1,
                    inflight := remove1 x (inflight s),
                    settled := settled s @ [(x, r)]\<rparr>)"

text \<open>Only an operation in flight can settle; any other \<open>Settle\<close> event cannot happen.\<close>

fun step :: "'a RequestQueue_run \<Rightarrow> 'a event \<Rightarrow> 'a RequestQueue_run option" where
  "step s (Add x) = Some (RequestQueue_add s x)"
| "step s (Settle x r) = (if x \<in> set (inflight s) then Some (settle s x r) else None)"

fun run :: "'a RequestQueue_run \<Rightarrow> 'a event list \<Rightarrow> 'a RequestQueue_run option" where
  "run s [] = Some s"
| "run s (e # es) = (case step s e of None \<Rightarrow> None | Some s' \<Rightarrow> run s' es)"

text \<open>The operations of an event list in the order they were submitted.\<close>

fun submitted :: "'a event list \<Rightarrow> 'a list" where
  "submitted [] = []"
| "submitted (Add x # es) = x # submitted es"
| "submitted (Settle x r # es) = submitted es"

text \<open>
  What holds of the queue between steps: \<open>running\<close> counts the operations in flight and stays
  within the limit, operations wait only while the limit is reached, and every started
  operation has either settled or is in flight.
\<close>

definition queue_inv :: "'a RequestQueue_run \<Rightarrow> bool" where
  "queue_inv s =
     (running s = int (length (inflight s))
    \<and> running s \<le> maxConcurrent s
    \<and> (queue s \<noteq> [] \<longrightarrow> running s = maxConcurrent s)
    \<and> int (length (started s)) = int (length (settled s)) + running s)"

section \<open>APIClient (lines 1-183)\<close>

record api_config =
  baseURL :: string
  timeout :: int
  retryAttempts :: int
  retryDelay :: int

definition API_CONFIG :: api_config where
  "API_CONFIG = \<lparr>baseURL = ''http://localhost:8000/api/v2'', timeout = 30000,
                  retryAttempts = 3, retryDelay = 1000\<rparr>"

text \<open>
  The request configuration built by \<^verbatim>\<open>request\<close>, and the \<^verbatim>\<open>options\<close> a caller may pass
  (a field left out is \<open>None\<close>). Header sets are association lists.
\<close>

record config =
  http_method :: string
  headers :: "(string \<times> string) list"
  url :: string
  body :: "string option"

record options =
  opt_method :: "string option"
  opt_headers :: "(string \<times> string) list option"
  opt_body :: "string option"

text \<open>
  A response as \<^verbatim>\<open>request\<close> reads it: the status line, the value of
  \<^verbatim>\<open>headers.get('content-type')\<close> (\<open>None\<close> for \<^verbatim>\<open>null\<close>), what \<^verbatim>\<open>response.json()\<close> yields
  (a rejection when the body is not JSON) and what \<^verbatim>\<open>response.text()\<close> yields.
\<close>

record response =
  status :: int
  statusText :: string
  content_type :: "string option"
  body_json :: "js_error + js"
  body_text :: string

record result =
  res_status :: int
  res_statusText :: string
  res_content_type :: "string option"
  res_data :: js

record APIClient = api_config +
  requestInterceptors :: "(config \<Rightarrow> js_error + config) list"
  responseInterceptors :: "(result \<Rightarrow> js_error + result) list"
  defaultHeaders :: "(string \<times> string) list"

text \<open>Object spread \<^verbatim>\<open>{...base, ...extra}\<close>: the keys of \<open>extra\<close> override those of \<open>base\<close>.\<close>

definition spread ::
  "(string \<times> string) list \<Rightarrow> (string \<times> string) list \<Rightarrow> (string \<times> string) list" where
  "spread base extra = fold (\<lambda>(k, v). AList.update k v) extra base"

definition default_headers_interceptor :: "config \<Rightarrow> js_error + config" where
  "default_headers_interceptor cfg =
     Inr (cfg\<lparr>headers := spread [(''Content-Type'', ''application/json''),
                                  (''Accept'', ''application/json'')] (headers cfg)\<rparr>)"

definition addRequestInterceptor ::
  "APIClient \<Rightarrow> (config \<Rightarrow> js_error + config) \<Rightarrow> APIClient" where
  "addRequestInterceptor c f = c\<lparr>requestInterceptors := requestInterceptors c @ [f]\<rparr>"

definition addResponseInterceptor ::
  "APIClient \<Rightarrow> (result \<Rightarrow> js_error + result) \<Rightarrow> APIClient" where
  "addResponseInterceptor c f = c\<lparr>responseInterceptors := responseInterceptors c @ [f]\<rparr>"

text \<open>The constructor; \<open>hostname\<close> is \<^verbatim>\<open>window.location.hostname\<close>.\<close>

definition APIClient_new :: "api_config \<Rightarrow> string \<Rightarrow> APIClient" where
  "APIClient_new cfg hostname =
     addRequestInterceptor
       \<lparr>baseURL = (if hostname = ''localhost'' \<or> hostname = ''127.0.0.1''
                   then ''http://localhost:8000/api/v2'' else ''/api/v2''),
        timeout = timeout cfg,
        retryAttempts = retryAttempts cfg,
        retryDelay = retryDelay cfg,
        requestInterceptors = [],
        responseInterceptors = [],
        defaultHeaders = [(''Content-Type'', ''application/json''),
                          (''Accept'', ''application/json'')]\<rparr>
       default_headers_interceptor"

text \<open>
  Each interceptor chain runs as \<^verbatim>\<open>for (const interceptor of ...) x = await interceptor(x)\<close>:
  an interceptor that throws ends the chain with its error.
\<close>

fun apply_interceptors :: "('a \<Rightarrow> js_error + 'a) list \<Rightarrow> 'a \<Rightarrow> js_error + 'a" where
  "apply_interceptors [] x = Inr x"
| "apply_interceptors (f # fs) x =
     (case f x of Inl error \<Rightarrow> Inl error | Inr y \<Rightarrow> apply_interceptors fs y)"

subsection \<open>The network, the timer and the clock\<close>

text \<open>
  \<^verbatim>\<open>fetch\<close>, \<^verbatim>\<open>setTimeout\<close> and \<^verbatim>\<open>AbortController\<close> belong to the browser. What the remote
  side does on one call of \<^verbatim>\<open>fetch\<close> is an \<open>attempt\<close>: after \<open>latency\<close> milliseconds the call
  resolves with a response, or rejects with a transport error, or it never settles by
  itself. The \<open>clock\<close> counts milliseconds from the moment \<^verbatim>\<open>request\<close> arms its timer
  \<^verbatim>\<open>setTimeout(() => controller.abort(), this.timeout)\<close>; the \<open>trace\<close> lists the calls of
  \<^verbatim>\<open>fetch\<close> (with the clock at the call) and of \<^verbatim>\<open>delay\<close> (with its argument) in order.
\<close>

datatype settles = Responds response | Rejects js_error | Never

record attempt =
  latency :: nat
  settles :: settles

datatype io_event = Fetch int | Delay int

record io =
  clock :: int
  trace :: "io_event list"

definition io_start :: io where
  "io_start = \<lparr>clock = 0, trace = []\<rparr>"

definition AbortError :: js_error where
  "AbortError = Error ''AbortError'' ''The operation was aborted.''"

text \<open>
  One call \<^verbatim>\<open>fetch(url, {..., signal})\<close> with the abort timer set to \<open>tmo\<close>. A call made once
  the signal is aborted rejects at once with the \<^verbatim>\<open>AbortError\<close>; a call that has not settled
  when the timer fires rejects with it at that moment; otherwise the call settles as the
  attempt says. Every call of one request carries the same signal.
\<close>

definition fetch :: "int \<Rightarrow> attempt \<Rightarrow> io \<Rightarrow> (js_error + response) \<times> io" where
  "fetch tmo a s =
     (let s' = s\<lparr>trace := trace s @ [Fetch (clock s)]\<rparr> in
      if tmo \<le> clock s then (Inl AbortError, s')
      else if tmo \<le> clock s + int (latency a) then (Inl AbortError, s'\<lparr>clock := tmo\<rparr>)
      else (case settles a of
              Never \<Rightarrow> (Inl AbortError, s'\<lparr>clock := tmo\<rparr>)
            | Responds r \<Rightarrow> (Inr r, s'\<lparr>clock := clock s + int (latency a)\<rparr>)
            | Rejects e \<Rightarrow> (Inl e, s'\<lparr>clock := clock s + int (latency a)\<rparr>)))"

text \<open>\<^verbatim>\<open>delay(ms)\<close> waits on a timer, which the abort signal does not cut short.\<close>

definition delay :: "int \<Rightarrow> io \<Rightarrow> io" where
  "delay ms s = s\<lparr>clock := clock s + max 0 ms, trace := trace s @ [Delay ms]\<rparr>"

subsection \<open>fetchWithRetry (lines 116-134)\<close>

text \<open>
  \<open>net k\<close> is what the remote side does on attempt \<open>k\<close>. The recursive calls are returned
  without \<^verbatim>\<open>await\<close>, so an error of a later attempt is not caught again by an earlier one.
\<close>

function fetchWithRetry ::
  "APIClient \<Rightarrow> (nat \<Rightarrow> attempt) \<Rightarrow> nat \<Rightarrow> io \<Rightarrow> (js_error + response) \<times> io" where
  "fetchWithRetry c net attempt s =
     (case fetch (timeout c) (net attempt) s of
        (Inr response, s1) \<Rightarrow>
          if 500 \<le> status response \<and> int attempt < retryAttempts c
          then fetchWithRetry c net (attempt + 1) (delay (retryDelay c * int attempt) s1)
          else (Inr response, s1)
      | (Inl error, s1) \<Rightarrow>
          if int attempt < retryAttempts c
          then fetchWithRetry c net (attempt + 1) (delay (retryDelay c * int attempt) s1)
          else (Inl error, s1))"
  by pat_completeness auto
termination
  by (relation "measure (\<lambda>(c, net, attempt, s). nat (retryAttempts c - int attempt))") auto

declare fetchWithRetry.simps [simp del]

subsection \<open>request (lines 54-114)\<close>

fun truthy :: "js \<Rightarrow> bool" where
  "truthy JUndefined = False"
| "truthy JNull = False"
| "truthy (JBool b) = b"
| "truthy (JNum n) = (n \<noteq> 0)"
| "truthy (JStr s) = (s \<noteq> [])"
| "truthy (JArr xs) = True"
| "truthy (JObj kvs) = True"

text \<open>\<^verbatim>\<open>a || b\<close>.\<close>

definition js_or :: "js \<Rightarrow> js \<Rightarrow> js" where
  "js_or a b = (if truthy a then a else b)"

text \<open>\<^verbatim>\<open>data?.message\<close>: only an object can have the property.\<close>

fun optional_message :: "js \<Rightarrow> js" where
  "optional_message (JObj kvs) =
     (case map_of kvs ''message'' of None \<Rightarrow> JUndefined | Some m \<Rightarrow> m)"
| "optional_message d = JUndefined"

fun starts_with :: "string \<Rightarrow> string \<Rightarrow> bool" where
  "starts_with s [] = True"
| "starts_with [] (p # ps) = False"
| "starts_with (c # cs) (p # ps) = (c = p \<and> starts_with cs ps)"

text \<open>\<^verbatim>\<open>s.includes(p)\<close>.\<close>

fun includes_str :: "string \<Rightarrow> string \<Rightarrow> bool" where
  "includes_str [] p = (p = [])"
| "includes_str (c # cs) p = (starts_with (c # cs) p \<or> includes_str cs p)"

text \<open>
  \<^verbatim>\<open>new APIError(message, status, data = null)\<close>. The first component is the value the
  constructor is given as message; the error object keeps its conversion to a string.
\<close>

definition new_APIError :: "js \<Rightarrow> int \<Rightarrow> js \<Rightarrow> js_error" where
  "new_APIError message st d = APIError message st (if d = JUndefined then JNull else d)"

text \<open>\<^verbatim>\<open>response.ok\<close>.\<close>

definition ok :: "response \<Rightarrow> bool" where
  "ok response = (200 \<le> status response \<and> status response \<le> 299)"

text \<open>Lines 87-92: the body is decoded as JSON or as text, by the content type.\<close>

definition decode :: "response \<Rightarrow> js_error + js" where
  "decode response =
     (case content_type response of
        None \<Rightarrow> Inr (JStr (body_text response))
      | Some contentType \<Rightarrow>
          if contentType \<noteq> [] \<and> includes_str contentType ''application/json''
          then body_json response
          else Inr (JStr (body_text response)))"

text \<open>The \<^verbatim>\<open>catch\<close> block of lines 105-113.\<close>

definition catch :: "js_error \<Rightarrow> js_error + js" where
  "catch error =
     (if error_name error = ''AbortError''
      then Inl (new_APIError (JStr ''Request timeout'') 408 JUndefined)
      else Inl error)"

definition initial_config :: "APIClient \<Rightarrow> string \<Rightarrow> options \<Rightarrow> config" where
  "initial_config c u opts =
     \<lparr>http_method = (case opt_method opts of None \<Rightarrow> ''GET'' | Some m \<Rightarrow> m),
      headers = (case opt_headers opts of None \<Rightarrow> [] | Some h \<Rightarrow> h),
      url = baseURL c @ u,
      body = opt_body opts\<rparr>"

text \<open>
  \<open>net cfg k\<close> is what the remote side does on attempt \<open>k\<close> of the request \<open>cfg\<close>. The request
  interceptors run before the \<^verbatim>\<open>try\<close>, so their errors pass the \<^verbatim>\<open>catch\<close> block by. The
  result is what the returned promise settles with, and the clock and trace at that moment.
\<close>

definition request ::
  "APIClient \<Rightarrow> (config \<Rightarrow> nat \<Rightarrow> attempt) \<Rightarrow> string \<Rightarrow> options \<Rightarrow> (js_error + js) \<times> io" where
  "request c net u opts =
     (case apply_interceptors (requestInterceptors c) (initial_config c u opts) of
        Inl error \<Rightarrow> (Inl error, io_start)
      | Inr cfg \<Rightarrow>
          (case fetchWithRetry c (net cfg) 1 io_start of
             (Inl error, s) \<Rightarrow> (catch error, s)
           | (Inr response, s) \<Rightarrow>
               (case decode response of
                  Inl error \<Rightarrow> (catch error, s)
                | Inr d \<Rightarrow>
                    (case apply_interceptors (responseInterceptors c)
                            \<lparr>res_status = status response,
                             res_statusText = statusText response,
                             res_content_type = content_type response,
                             res_data = d\<rparr> of
                       Inl error \<Rightarrow> (catch error, s)
                     | Inr result \<Rightarrow>
                         if \<not> ok response
                         then (catch (new_APIError
                                        (js_or (optional_message (res_data result))
                                               (JStr (statusText response)))
                                        (status response) (res_data result)), s)
                         else (Inr (res_data result), s)))))"

subsection \<open>Reading a trace\<close>

fun fetch_count :: "io_event list \<Rightarrow> nat" where
  "fetch_count [] = 0"
| "fetch_count (Fetch t # es) = Suc (fetch_count es)"
| "fetch_count (Delay ms # es) = fetch_count es"

fun delays :: "io_event list \<Rightarrow> int list" where
  "delays [] = []"
| "delays (Fetch t # es) = delays es"
| "delays (Delay ms # es) = ms # delays es"

text \<open>An attempt that ends in a transport failure or in a server error (status 500 or more).\<close>

definition transient :: "attempt \<Rightarrow> bool" where
  "transient a =
     (case settles a of Responds r \<Rightarrow> 500 \<le> status r | Rejects e \<Rightarrow> True | Never \<Rightarrow> False)"

section \<open>Response cache: expiry\<close>

lemma get_absent: "cache cm key = None \<Longrightarrow> CacheManager_get cm key now = (JNull, cm)"
  by (simp add: CacheManager_get_def)

lemma get_live:
  "cache cm key = Some item \<Longrightarrow> now \<le> expiry item \<Longrightarrow>
     CacheManager_get cm key now = (data item, cm)"
  by (simp add: CacheManager_get_def)

lemma get_expired:
  "cache cm key = Some item \<Longrightarrow> expiry item < now \<Longrightarrow>
     CacheManager_get cm key now = (JNull, cm\<lparr>cache := (cache cm)(key := None)\<rparr>)"
  by (simp add: CacheManager_get_def)

lemma set_entry:
  "cache (CacheManager_set cm key d ttl now) key =
     Some \<lparr>data = d, expiry = now + (case ttl of None \<Rightarrow> defaultTTL cm | Some t \<Rightarrow> t)\<rparr>"
  by (simp add: CacheManager_set_def)

lemma set_other: "k \<noteq> key \<Longrightarrow> cache (CacheManager_set cm key d ttl now) k = cache cm k"
  by (simp add: CacheManager_set_def)

lemma set_dom: "dom (cache (CacheManager_set cm key d ttl now)) = insert key (dom (cache cm))"
  by (simp add: CacheManager_set_def)

lemma set_defaultTTL: "defaultTTL (CacheManager_set cm key d ttl now) = defaultTTL cm"
  by (simp add: CacheManager_set_def)

text \<open>
  Claim C2, as the code has it. An entry stored under a key is returned by \<open>get\<close>, and the
  cache left as it is, at every time up to and including its expiry timestamp; at every
  time after the expiry \<open>get\<close> returns \<open>null\<close> and removes the entry, and a second lookup
  then finds the key absent.
\<close>

theorem get_visible_until_expiry:
  assumes "cache cm key = Some item"
  shows "(now \<le> expiry item \<longrightarrow> CacheManager_get cm key now = (data item, cm))
       \<and> (expiry item < now \<longrightarrow>
            fst (CacheManager_get cm key now) = JNull
          \<and> cache (snd (CacheManager_get cm key now)) key = None
          \<and> (\<forall>k. k \<noteq> key \<longrightarrow> cache (snd (CacheManager_get cm key now)) k = cache cm k))"
  using assms by (simp add: CacheManager_get_def)

theorem get_visible_until_expiry_witness:
  "cache (CacheManager_set (CacheManager_new 300000) ''teams'' (JStr ''v'') (Some 10) 0) ''teams''
     = Some \<lparr>data = JStr ''v'', expiry = 10\<rparr>
   \<and> CacheManager_get (CacheManager_set (CacheManager_new 300000) ''teams'' (JStr ''v'') (Some 10) 0)
        ''teams'' 9
     = (JStr ''v'', CacheManager_set (CacheManager_new 300000) ''teams'' (JStr ''v'') (Some 10) 0)
   \<and> fst (CacheManager_get
        (CacheManager_set (CacheManager_new 300000) ''teams'' (JStr ''v'') (Some 10) 0)
        ''teams'' 11) = JNull
   \<and> cache (snd (CacheManager_get
        (CacheManager_set (CacheManager_new 300000) ''teams'' (JStr ''v'') (Some 10) 0)
        ''teams'' 11)) ''teams'' = None"
proof -
  let ?cm = "CacheManager_set (CacheManager_new 300000) ''teams'' (JStr ''v'') (Some 10) 0"
  have e: "cache ?cm ''teams'' = Some \<lparr>data = JStr ''v'', expiry = 10\<rparr>"
    by (simp add: CacheManager_set_def CacheManager_new_def)
  from get_visible_until_expiry [OF e, of 9] get_visible_until_expiry [OF e, of 11] e
  show ?thesis by simp
qed

text \<open>
  Claim C2 as stated fails at the instant \<open>now = expiry\<close>: an entry stored at time 0 with a
  time-to-live of 10 ms expires at 10, and \<open>get\<close> at time 10 still returns the value and
  keeps the entry.
\<close>

theorem get_at_expiry_counterexample:
  "expiry (the (cache (CacheManager_set (CacheManager_new 300000) ''teams'' (JStr ''v'') (Some 10) 0)
       ''teams'')) = 10
   \<and> fst (CacheManager_get
        (CacheManager_set (CacheManager_new 300000) ''teams'' (JStr ''v'') (Some 10) 0)
        ''teams'' 10) \<noteq> JNull
   \<and> cache (snd (CacheManager_get
        (CacheManager_set (CacheManager_new 300000) ''teams'' (JStr ''v'') (Some 10) 0)
        ''teams'' 10)) ''teams'' \<noteq> None"
  by (simp add: CacheManager_get_def CacheManager_set_def CacheManager_new_def)


section \<open>Response cache: replacement\<close>

text \<open>
  Claim C7. A \<open>set\<close> after an earlier \<open>set\<close> of the same key replaces the value and the
  expiry: the key then holds the second value with the second expiry, the first call
  leaves no trace (the cache is the one the second call alone would have produced, so
  neither the key set nor the size of the map has grown and every other key is untouched),
  and a \<open>get\<close> that finds the entry unexpired returns the second value.
\<close>

theorem set_replaces:
  "cache (CacheManager_set (CacheManager_set cm key v1 ttl1 now1) key v2 ttl2 now2) key
     = Some \<lparr>data = v2, expiry = now2 + (case ttl2 of None \<Rightarrow> defaultTTL cm | Some t \<Rightarrow> t)\<rparr>
   \<and> dom (cache (CacheManager_set (CacheManager_set cm key v1 ttl1 now1) key v2 ttl2 now2))
     = dom (cache (CacheManager_set cm key v1 ttl1 now1))
   \<and> card (dom (cache (CacheManager_set (CacheManager_set cm key v1 ttl1 now1) key v2 ttl2 now2)))
     = card (dom (cache (CacheManager_set cm key v1 ttl1 now1)))
   \<and> (\<forall>k. k \<noteq> key \<longrightarrow>
        cache (CacheManager_set (CacheManager_set cm key v1 ttl1 now1) key v2 ttl2 now2) k
          = cache cm k)
   \<and> CacheManager_set (CacheManager_set cm key v1 ttl1 now1) key v2 ttl2 now2
     = CacheManager_set cm key v2 ttl2 now2
   \<and> (\<forall>now. now \<le> now2 + (case ttl2 of None \<Rightarrow> defaultTTL cm | Some t \<Rightarrow> t) \<longrightarrow>
        CacheManager_get (CacheManager_set (CacheManager_set cm key v1 ttl1 now1) key v2 ttl2 now2)
          key now
        = (v2, CacheManager_set (CacheManager_set cm key v1 ttl1 now1) key v2 ttl2 now2))"
  by (cases ttl2) (simp_all add: CacheManager_set_def CacheManager_get_def)

theorem set_replaces_witness:
  "(100::int) \<le> 5 + 300000
   \<and> CacheManager_get
       (CacheManager_set (CacheManager_set (CacheManager_new 300000) ''teams'' (JStr ''a'') (Some 10) 0)
          ''teams'' (JStr ''b'') None 5) ''teams'' 100
     = (JStr ''b'',
        CacheManager_set (CacheManager_set (CacheManager_new 300000) ''teams'' (JStr ''a'') (Some 10) 0)
          ''teams'' (JStr ''b'') None 5)
   \<and> cache (CacheManager_set
               (CacheManager_set (CacheManager_new 300000) ''teams'' (JStr ''a'') (Some 10) 0)
               ''teams'' (JStr ''b'') None 5) ''players''
     = None"
proof -
  let ?cm = "CacheManager_set (CacheManager_set (CacheManager_new 300000) ''teams'' (JStr ''a'') (Some 10) 0)
          ''teams'' (JStr ''b'') None 5"
  have h: "(100::int) \<le> 5 + (case None of None \<Rightarrow> defaultTTL (CacheManager_new 300000)
                                  | Some t \<Rightarrow> t)"
    by (simp add: CacheManager_new_def)
  have k: "''players'' \<noteq> ''teams''" by simp
  have e: "cache (CacheManager_new 300000) ''players'' = None"
    by (simp add: CacheManager_new_def)
  note t = set_replaces [of "CacheManager_new 300000" "''teams''" "JStr ''a''" "Some 10" 0
             "JStr ''b''" None 5]
  have 1: "CacheManager_get ?cm ''teams'' 100 = (JStr ''b'', ?cm)"
    using t [THEN conjunct2, THEN conjunct2, THEN conjunct2, THEN conjunct2, THEN conjunct2,
             THEN spec, of 100] h
    by (rule mp)
  have "cache ?cm ''players'' = cache (CacheManager_new 300000) ''players''"
    using t [THEN conjunct2, THEN conjunct2, THEN conjunct2, THEN conjunct1, THEN spec,
             of "''players''"] k
    by (rule mp)
  with e have 2: "cache ?cm ''players'' = None" by simp
  show ?thesis using 1 2 by simp
qed

section \<open>Cached reads: a fetcher that throws\<close>

lemma get_null_if_holds_no_value:
  "holds_no_value cm key \<Longrightarrow> fst (CacheManager_get cm key now) = JNull"
  by (simp add: holds_no_value_def CacheManager_get_def split: option.splits)

lemma get_null_leaves_no_value:
  "fst (CacheManager_get cm key now) = JNull \<Longrightarrow>
     holds_no_value (snd (CacheManager_get cm key now)) key"
  by (auto simp add: holds_no_value_def CacheManager_get_def split: option.splits if_splits)

lemma get_changes_only_expired:
  "cache (snd (CacheManager_get cm key now)) k = cache cm k
   \<or> (k = key \<and> cache (snd (CacheManager_get cm key now)) k = None
        \<and> (\<exists>item. cache cm key = Some item \<and> expiry item < now))"
  by (auto simp add: CacheManager_get_def split: option.splits)

lemma cachedGet_called:
  "snd (snd (cachedGet cm key fetcher ttl now now')) = (fst (CacheManager_get cm key now) = JNull)"
  by (cases "CacheManager_get cm key now") (simp add: cachedGet_def split: sum.splits)

lemma cachedGet_throw:
  "fst (CacheManager_get cm key now) = JNull \<Longrightarrow> fetcher () = Inl e \<Longrightarrow>
     cachedGet cm key fetcher ttl now now' = (Inl e, snd (CacheManager_get cm key now), True)"
  by (cases "CacheManager_get cm key now") (simp add: cachedGet_def)

lemma cachedGet_null:
  "fst (CacheManager_get cm key now) = JNull \<Longrightarrow> fetcher () = Inr JNull \<Longrightarrow>
     cachedGet cm key fetcher ttl now now'
       = (Inr JNull, CacheManager_set (snd (CacheManager_get cm key now)) key JNull ttl now', True)"
  by (cases "CacheManager_get cm key now") (simp add: cachedGet_def)

lemma set_null_holds_no_value: "holds_no_value (CacheManager_set cm key JNull ttl now) key"
  by (simp add: holds_no_value_def CacheManager_set_def)

lemma calls_all_fetch:
  "holds_no_value cm key \<Longrightarrow> fetcher () = Inr JNull \<Longrightarrow>
     cachedGet_calls cm key fetcher ttl ts = replicate (length ts) True"
proof (induction ts arbitrary: cm)
  case Nil
  then show ?case by simp
next
  case (Cons t ts)
  obtain now now' where t: "t = (now, now')" by (cases t)
  have g: "fst (CacheManager_get cm key now) = JNull"
    using Cons.prems(1) by (rule get_null_if_holds_no_value)
  have c: "cachedGet cm key fetcher ttl now now'
       = (Inr JNull, CacheManager_set (snd (CacheManager_get cm key now)) key JNull ttl now', True)"
    using g Cons.prems(2) by (rule cachedGet_null)
  have "cachedGet_calls (CacheManager_set (snd (CacheManager_get cm key now)) key JNull ttl now')
          key fetcher ttl ts = replicate (length ts) True"
    using set_null_holds_no_value Cons.prems(2) by (rule Cons.IH)
  then show ?case by (simp add: t c)
qed

text \<open>
  Claim C9, as the code has it. When the lookup finds nothing to return and the fetcher
  throws, \<open>cachedGet\<close> rethrows the fetcher's error and leaves the cache exactly as the
  lookup left it: no entry is created or modified, and the only entry that can have gone
  is an expired one stored under the key, which the lookup evicted. A later call with the
  same key, at any time and with any fetcher, invokes its fetcher.
\<close>

theorem cachedGet_fetcher_throws:
  assumes "fst (CacheManager_get cm key now) = JNull" and "fetcher () = Inl e"
  shows "fst (cachedGet cm key fetcher ttl now now') = Inl e
       \<and> fst (snd (cachedGet cm key fetcher ttl now now')) = snd (CacheManager_get cm key now)
       \<and> (\<forall>k. cache (fst (snd (cachedGet cm key fetcher ttl now now'))) k = cache cm k
             \<or> (k = key \<and> cache (fst (snd (cachedGet cm key fetcher ttl now now'))) k = None
                  \<and> (\<exists>item. cache cm key = Some item \<and> expiry item < now)))
       \<and> (\<forall>fetcher2 ttl2 later later'.
            snd (snd (cachedGet (fst (snd (cachedGet cm key fetcher ttl now now')))
                        key fetcher2 ttl2 later later')) = True)"
proof -
  have c: "cachedGet cm key fetcher ttl now now' = (Inl e, snd (CacheManager_get cm key now), True)"
    using assms by (rule cachedGet_throw)
  have "holds_no_value (snd (CacheManager_get cm key now)) key"
    using assms(1) by (rule get_null_leaves_no_value)
  then have "\<forall>fetcher2 ttl2 later later'.
       snd (snd (cachedGet (snd (CacheManager_get cm key now)) key fetcher2 ttl2 later later'))
         = True"
    by (simp add: cachedGet_called get_null_if_holds_no_value)
  then show ?thesis using get_changes_only_expired [of cm key now] by (simp add: c)
qed

theorem cachedGet_fetcher_throws_witness:
  "fst (CacheManager_get (CacheManager_new 300000) ''teams'' 7) = JNull
   \<and> fst (cachedGet (CacheManager_new 300000) ''teams''
            (\<lambda>u. Inl (Error ''TypeError'' ''Failed to fetch'')) (Some 3600000) 7 9)
       = Inl (Error ''TypeError'' ''Failed to fetch'')
   \<and> cache (fst (snd (cachedGet (CacheManager_new 300000) ''teams''
            (\<lambda>u. Inl (Error ''TypeError'' ''Failed to fetch'')) (Some 3600000) 7 9))) ''teams''
       = None
   \<and> snd (snd (cachedGet
        (fst (snd (cachedGet (CacheManager_new 300000) ''teams''
            (\<lambda>u. Inl (Error ''TypeError'' ''Failed to fetch'')) (Some 3600000) 7 9)))
        ''teams'' (\<lambda>u. Inr (JStr ''v'')) (Some 3600000) 20 21)) = True"
proof -
  let ?f = "\<lambda>u::unit. (Inl (Error ''TypeError'' ''Failed to fetch'') :: js_error + js)"
  let ?c = "cachedGet (CacheManager_new 300000) ''teams'' ?f (Some 3600000) 7 9"
  have g: "fst (CacheManager_get (CacheManager_new 300000) ''teams'' 7) = JNull"
    by (simp add: CacheManager_get_def CacheManager_new_def)
  have f: "?f () = Inl (Error ''TypeError'' ''Failed to fetch'')"
    by simp
  have s: "cache (snd (CacheManager_get (CacheManager_new 300000) ''teams'' 7)) ''teams'' = None"
    by (simp add: CacheManager_get_def CacheManager_new_def)
  note t = cachedGet_fetcher_throws [OF g f, of "Some 3600000" 9]
  have 1: "fst ?c = Inl (Error ''TypeError'' ''Failed to fetch'')"
    using t by (rule conjunct1)
  have "fst (snd ?c) = snd (CacheManager_get (CacheManager_new 300000) ''teams'' 7)"
    using t [THEN conjunct2] by (rule conjunct1)
  with s have 2: "cache (fst (snd ?c)) ''teams'' = None" by simp
  have 3: "snd (snd (cachedGet (fst (snd ?c)) ''teams'' (\<lambda>u. Inr (JStr ''v'')) (Some 3600000) 20 21))
             = True"
    using t [THEN conjunct2, THEN conjunct2, THEN conjunct2] by simp
  show ?thesis using g 1 2 3 by simp
qed

text \<open>
  Claim C9 as stated fails where the key holds an expired entry: the entry stored at time 0
  with a time-to-live of 10 ms is still in the cache before the call, the call at time 11
  rethrows the fetcher's error, and the entry is gone afterwards.
\<close>

theorem cachedGet_evicts_counterexample:
  "cache (CacheManager_set (CacheManager_new 300000) ''teams'' (JStr ''v'') (Some 10) 0) ''teams''
     = Some \<lparr>data = JStr ''v'', expiry = 10\<rparr>
   \<and> fst (cachedGet (CacheManager_set (CacheManager_new 300000) ''teams'' (JStr ''v'') (Some 10) 0)
            ''teams'' (\<lambda>u. Inl (Error ''TypeError'' ''Failed to fetch'')) (Some 3600000) 11 12)
       = Inl (Error ''TypeError'' ''Failed to fetch'')
   \<and> cache (fst (snd (cachedGet
              (CacheManager_set (CacheManager_new 300000) ''teams'' (JStr ''v'') (Some 10) 0)
              ''teams'' (\<lambda>u. Inl (Error ''TypeError'' ''Failed to fetch'')) (Some 3600000) 11 12)))
        ''teams''
       = None"
  by (simp add: cachedGet_def CacheManager_get_def CacheManager_set_def CacheManager_new_def)

section \<open>Cached reads: a fetched null\<close>

text \<open>
  Claim C10. \<open>get\<close> returns \<open>null\<close>, and leaves the cache as it is, both for a key that is
  absent and for a key whose unexpired entry holds \<open>null\<close>. So when the lookup of
  \<open>cachedGet\<close> returns \<open>null\<close> and the fetcher yields \<open>null\<close>, that \<open>null\<close> is stored under the
  key with its expiry, and the fetcher is nevertheless invoked by this call and by every
  later call for the key, whatever the clock reads.
\<close>

theorem null_is_never_served:
  "(cache cm key = None \<longrightarrow> CacheManager_get cm key now = (JNull, cm))
   \<and> (\<forall>item. cache cm key = Some item \<and> data item = JNull \<and> now \<le> expiry item \<longrightarrow>
         CacheManager_get cm key now = (JNull, cm))
   \<and> (fst (CacheManager_get cm key now) = JNull \<and> fetcher () = Inr JNull \<longrightarrow>
         cache (fst (snd (cachedGet cm key fetcher ttl now now'))) key
           = Some \<lparr>data = JNull,
                   expiry = now' + (case ttl of None \<Rightarrow> defaultTTL cm | Some t \<Rightarrow> t)\<rparr>
       \<and> cachedGet_calls cm key fetcher ttl ((now, now') # ts)
           = replicate (Suc (length ts)) True)"
proof -
  have a: "cache cm key = None \<longrightarrow> CacheManager_get cm key now = (JNull, cm)"
    by (simp add: get_absent)
  have b: "\<forall>item. cache cm key = Some item \<and> data item = JNull \<and> now \<le> expiry item \<longrightarrow>
         CacheManager_get cm key now = (JNull, cm)"
    using get_live [of cm key _ now] by auto
  have c: "fst (CacheManager_get cm key now) = JNull \<and> fetcher () = Inr JNull \<longrightarrow>
         cache (fst (snd (cachedGet cm key fetcher ttl now now'))) key
           = Some \<lparr>data = JNull,
                   expiry = now' + (case ttl of None \<Rightarrow> defaultTTL cm | Some t \<Rightarrow> t)\<rparr>
       \<and> cachedGet_calls cm key fetcher ttl ((now, now') # ts)
           = replicate (Suc (length ts)) True"
  proof (intro impI, elim conjE)
    assume g: "fst (CacheManager_get cm key now) = JNull" and f: "fetcher () = Inr JNull"
    let ?cm1 = "snd (CacheManager_get cm key now)"
    have cg: "cachedGet cm key fetcher ttl now now'
       = (Inr JNull, CacheManager_set ?cm1 key JNull ttl now', True)"
      using g f by (rule cachedGet_null)
    have dt: "defaultTTL ?cm1 = defaultTTL cm"
      by (simp add: CacheManager_get_def split: option.splits)
    have ex: "(case ttl of None \<Rightarrow> defaultTTL ?cm1 | Some t \<Rightarrow> t)
                = (case ttl of None \<Rightarrow> defaultTTL cm | Some t \<Rightarrow> t)"
      by (cases ttl) (simp_all add: dt)
    have rest: "cachedGet_calls (CacheManager_set ?cm1 key JNull ttl now') key fetcher ttl ts
                  = replicate (length ts) True"
      using set_null_holds_no_value f by (rule calls_all_fetch)
    show "cache (fst (snd (cachedGet cm key fetcher ttl now now'))) key
           = Some \<lparr>data = JNull,
                   expiry = now' + (case ttl of None \<Rightarrow> defaultTTL cm | Some t \<Rightarrow> t)\<rparr>
       \<and> cachedGet_calls cm key fetcher ttl ((now, now') # ts)
           = replicate (Suc (length ts)) True"
      by (simp add: cg set_entry ex rest)
  qed
  from a b c show ?thesis by (intro conjI)
qed

theorem null_is_never_served_witness:
  "cache (CacheManager_new 300000) ''teams'' = None
   \<and> CacheManager_get (CacheManager_new 300000) ''teams'' 0 = (JNull, CacheManager_new 300000)
   \<and> cache (CacheManager_set (CacheManager_new 300000) ''teams'' JNull (Some 10) 0) ''teams''
       = Some \<lparr>data = JNull, expiry = 10\<rparr>
   \<and> CacheManager_get (CacheManager_set (CacheManager_new 300000) ''teams'' JNull (Some 10) 0)
        ''teams'' 5
       = (JNull, CacheManager_set (CacheManager_new 300000) ''teams'' JNull (Some 10) 0)
   \<and> cache (fst (snd (cachedGet (CacheManager_new 300000) ''teams'' (\<lambda>u. Inr JNull)
                        (Some 3600000) 0 5))) ''teams''
       = Some \<lparr>data = JNull, expiry = 3600005\<rparr>
   \<and> cachedGet_calls (CacheManager_new 300000) ''teams'' (\<lambda>u. Inr JNull) (Some 3600000)
        [(0, 5), (10, 15), (20, 25)]
       = [True, True, True]"
proof -
  let ?new = "CacheManager_new 300000"
  let ?cm = "CacheManager_set ?new ''teams'' JNull (Some 10) 0"
  have a: "cache ?new ''teams'' = None" by (simp add: CacheManager_new_def)
  have 1: "CacheManager_get ?new ''teams'' 0 = (JNull, ?new)"
    using null_is_never_served [of ?new "''teams''" 0, THEN conjunct1] a by (rule mp)
  have e: "cache ?cm ''teams'' = Some \<lparr>data = JNull, expiry = 10\<rparr>"
    by (simp add: CacheManager_set_def)
  have b: "cache ?cm ''teams'' = Some \<lparr>data = JNull, expiry = 10\<rparr>
             \<and> data \<lparr>data = JNull, expiry = 10\<rparr> = JNull
             \<and> (5::int) \<le> expiry \<lparr>data = JNull, expiry = 10\<rparr>"
    using e by simp
  have 2: "CacheManager_get ?cm ''teams'' 5 = (JNull, ?cm)"
    using null_is_never_served [of ?cm "''teams''" 5, THEN conjunct2, THEN conjunct1, THEN spec] b
    by (rule mp)
  have g: "fst (CacheManager_get ?new ''teams'' 0) = JNull"
    by (simp add: CacheManager_get_def CacheManager_new_def)
  have f: "(\<lambda>u::unit. (Inr JNull :: js_error + js)) () = Inr JNull" by simp
  have r: "replicate (Suc (length [(10::int, 15::int), (20, 25)])) True = [True, True, True]"
    by (simp add: numeral_2_eq_2)
  note t = null_is_never_served [of ?new "''teams''" 0 "\<lambda>u. Inr JNull"
         "Some 3600000" 5 "[(10, 15), (20, 25)]", THEN conjunct2, THEN conjunct2, THEN mp,
         OF conjI [OF g f]]
  have 3: "cache (fst (snd (cachedGet ?new ''teams'' (\<lambda>u. Inr JNull) (Some 3600000) 0 5))) ''teams''
       = Some \<lparr>data = JNull, expiry = 3600005\<rparr>"
    using t [THEN conjunct1] by simp
  have 4: "cachedGet_calls ?new ''teams'' (\<lambda>u. Inr JNull) (Some 3600000)
        [(0, 5), (10, 15), (20, 25)] = [True, True, True]"
    using t [THEN conjunct2] r by simp
  from a 1 e 2 3 4 show ?thesis by (intro conjI)
qed


section \<open>Concurrency limiter: the bound\<close>

lemma processNext_maxConcurrent: "maxConcurrent (processNext s) = maxConcurrent s"
  by (simp add: processNext_def)

lemma processNext_fifo: "started (processNext s) @ queue (processNext s) = started s @ queue s"
  by (simp add: processNext_def)

lemma length_remove1_int:
  "x \<in> set xs \<Longrightarrow> int (length (remove1 x xs)) = int (length xs) - 1"
proof -
  assume x: "x \<in> set xs"
  then have "0 < length xs" by (rule length_pos_if_in_set)
  moreover from x have "length (remove1 x xs) = length xs - 1" by (simp add: length_remove1)
  ultimately show ?thesis by arith
qed

lemma new_inv: "0 \<le> n \<Longrightarrow> queue_inv (RequestQueue_new n)"
  by (simp add: queue_inv_def RequestQueue_new_def)

lemma add_inv: "queue_inv s \<Longrightarrow> queue_inv (RequestQueue_add s x)"
  by (auto simp add: queue_inv_def RequestQueue_add_def processNext_def)

lemma settle_inv: "queue_inv s \<Longrightarrow> x \<in> set (inflight s) \<Longrightarrow> queue_inv (settle s x r)"
  by (auto simp add: queue_inv_def settle_def processNext_def length_remove1_int)

lemma step_inv: "queue_inv s \<Longrightarrow> step s e = Some s' \<Longrightarrow> queue_inv s'"
  by (cases e) (auto simp add: add_inv settle_inv split: if_splits)

lemma step_maxConcurrent: "step s e = Some s' \<Longrightarrow> maxConcurrent s' = maxConcurrent s"
  by (cases e)
     (auto simp add: RequestQueue_add_def settle_def processNext_maxConcurrent split: if_splits)

lemma step_fifo:
  "step s e = Some s' \<Longrightarrow> started s' @ queue s' = started s @ queue s @ submitted [e]"
  by (cases e)
     (auto simp add: RequestQueue_add_def settle_def processNext_fifo split: if_splits)

lemma submitted_append: "submitted (es @ fs) = submitted es @ submitted fs"
  by (induction es rule: submitted.induct) simp_all

lemma run_Cons:
  "run s (e # es) = Some s' \<Longrightarrow> \<exists>s1. step s e = Some s1 \<and> run s1 es = Some s'"
  by (simp split: option.splits)

lemma run_inv: "queue_inv s \<Longrightarrow> run s es = Some s' \<Longrightarrow> queue_inv s'"
proof (induction es arbitrary: s)
  case Nil
  then show ?case by simp
next
  case (Cons e es)
  from run_Cons [OF Cons.prems(2)]
  obtain s1 where s1: "step s e = Some s1" and r: "run s1 es = Some s'" by blast
  from Cons.prems(1) s1 have "queue_inv s1" by (rule step_inv)
  then show ?case using r by (rule Cons.IH)
qed

lemma run_maxConcurrent: "run s es = Some s' \<Longrightarrow> maxConcurrent s' = maxConcurrent s"
proof (induction es arbitrary: s)
  case Nil
  then show ?case by simp
next
  case (Cons e es)
  from run_Cons [OF Cons.prems]
  obtain s1 where s1: "step s e = Some s1" and r: "run s1 es = Some s'" by blast
  from Cons.IH [OF r] step_maxConcurrent [OF s1] show ?case by simp
qed

lemma run_fifo:
  "run s es = Some s' \<Longrightarrow> started s' @ queue s' = started s @ queue s @ submitted es"
proof (induction es arbitrary: s)
  case Nil
  then show ?case by simp
next
  case (Cons e es)
  from run_Cons [OF Cons.prems]
  obtain s1 where s1: "step s e = Some s1" and r: "run s1 es = Some s'" by blast
  have "submitted (e # es) = submitted [e] @ submitted es"
    using submitted_append [of "[e]" es] by simp
  with Cons.IH [OF r] step_fifo [OF s1] show ?case by simp
qed

lemma settle_admits_next:
  "queue_inv s \<Longrightarrow> queue s \<noteq> [] \<Longrightarrow> step s (Settle x r) = Some s' \<Longrightarrow>
     started s' = started s @ [hd (queue s)] \<and> queue s' = tl (queue s)"
  by (auto simp add: queue_inv_def settle_def processNext_def split: if_splits)

text \<open>
  Claim C1. For a queue built with limit \<open>n \<ge> 1\<close> and any sequence of submissions and
  settlements, the limit stays \<open>n\<close>, the counter \<open>running\<close> equals the number of operations
  in flight and never exceeds the limit. \<open>processNext\<close> starts the head of the queue, and
  counts it, when \<open>running\<close> is below the limit and the queue is not empty; when \<open>running\<close> has
  reached the limit it changes nothing.
\<close>

theorem running_bounded:
  assumes "1 \<le> n" and "run (RequestQueue_new n) es = Some (s :: 'a RequestQueue_run)"
  shows "maxConcurrent s = n
       \<and> running s \<le> maxConcurrent s
       \<and> running s = int (length (inflight s))
       \<and> (\<forall>t :: 'a RequestQueue_run.
            (running t < maxConcurrent t \<and> queue t \<noteq> [] \<longrightarrow>
               running (processNext t) = running t + 1
             \<and> inflight (processNext t) = inflight t @ [hd (queue t)])
          \<and> (\<not> running t < maxConcurrent t \<longrightarrow> processNext t = t))"
proof -
  from assms(1) have "queue_inv (RequestQueue_new n :: 'a RequestQueue_run)"
    by (simp add: new_inv)
  then have "queue_inv s" using assms(2) by (rule run_inv)
  moreover have "maxConcurrent s = n"
    using run_maxConcurrent [OF assms(2)] by (simp add: RequestQueue_new_def)
  ultimately show ?thesis by (simp add: queue_inv_def processNext_def)
qed

theorem running_bounded_witness:
  "(1::int) \<le> 2
   \<and> run (RequestQueue_new 2) [Add ''a'', Add ''b'', Add ''c'', Settle ''a'' Rejected]
       = Some \<lparr>maxConcurrent = 2, running = 2, queue = [], inflight = [''b'', ''c''],
               started = [''a'', ''b'', ''c''], settled = [(''a'', Rejected)]\<rparr>
   \<and> running \<lparr>maxConcurrent = 2, running = 2, queue = [], inflight = [''b'', ''c''],
               started = [''a'', ''b'', ''c''], settled = [(''a'', Rejected)]\<rparr>
       \<le> maxConcurrent \<lparr>maxConcurrent = 2, running = 2, queue = [], inflight = [''b'', ''c''],
               started = [''a'', ''b'', ''c''], settled = [(''a'', Rejected)]\<rparr>
   \<and> inflight (processNext \<lparr>maxConcurrent = 2, running = 1, queue = [''b''], inflight = [''a''],
               started = [''a''], settled = []\<rparr>) = [''a'', ''b'']
   \<and> running (processNext \<lparr>maxConcurrent = 2, running = 1, queue = [''b''], inflight = [''a''],
               started = [''a''], settled = []\<rparr>) = 2
   \<and> processNext \<lparr>maxConcurrent = 2, running = 2, queue = [''c''], inflight = [''a'', ''b''],
               started = [''a'', ''b''], settled = []\<rparr>
       = \<lparr>maxConcurrent = 2, running = 2, queue = [''c''], inflight = [''a'', ''b''],
               started = [''a'', ''b''], settled = []\<rparr>"
proof -
  let ?s = "\<lparr>maxConcurrent = 2, running = 2, queue = [], inflight = [''b'', ''c''],
             started = [''a'', ''b'', ''c''], settled = [(''a'', Rejected)]\<rparr>"
  let ?t1 = "\<lparr>maxConcurrent = 2, running = 1, queue = [''b''], inflight = [''a''],
               started = [''a''], settled = []\<rparr>"
  let ?t2 = "\<lparr>maxConcurrent = 2, running = 2, queue = [''c''], inflight = [''a'', ''b''],
               started = [''a'', ''b''], settled = []\<rparr>"
  have r: "run (RequestQueue_new 2) [Add ''a'', Add ''b'', Add ''c'', Settle ''a'' Rejected] = Some ?s"
    by (simp add: RequestQueue_new_def RequestQueue_add_def settle_def processNext_def)
  have n: "(1::int) \<le> 2" by simp
  note t = running_bounded [OF n r]
  have 1: "running ?s \<le> maxConcurrent ?s"
    using t [THEN conjunct2, THEN conjunct1] by simp
  have free: "running ?t1 < maxConcurrent ?t1 \<and> queue ?t1 \<noteq> []" by simp
  have adm: "running (processNext ?t1) = running ?t1 + 1
               \<and> inflight (processNext ?t1) = inflight ?t1 @ [hd (queue ?t1)]"
    using t [THEN conjunct2, THEN conjunct2, THEN conjunct2, THEN spec, of ?t1, THEN conjunct1] free
    by (rule mp)
  have 2: "inflight (processNext ?t1) = [''a'', ''b'']" using adm by simp
  have 3: "running (processNext ?t1) = 2" using adm by simp
  have full: "\<not> running ?t2 < maxConcurrent ?t2" by simp
  have 4: "processNext ?t2 = ?t2"
    using t [THEN conjunct2, THEN conjunct2, THEN conjunct2, THEN spec, of ?t2, THEN conjunct2] full
    by (rule mp)
  from n r 1 2 3 4 show ?thesis by (intro conjI)
qed

section \<open>Concurrency limiter: order of admission\<close>

text \<open>
  Claim C6. In every run of a queue with limit \<open>n \<ge> 1\<close>, the operations started so far,
  followed by the operations still waiting, are the submitted operations in the order of
  submission; the number of operations started is the number settled plus the number
  running, hence at most the number settled plus \<open>n\<close>; and when an operation in flight
  settles, resolved or rejected, while operations wait, the first waiting operation is
  started in that same step. With limit 1 and operations \<open>a\<close>, \<open>b\<close>, \<open>c\<close> submitted in this
  order: only \<open>a\<close> has started after the three submissions, \<open>b\<close> starts when \<open>a\<close> settles and \<open>c\<close>
  still waits, and \<open>c\<close> starts when \<open>b\<close> settles.
\<close>

theorem fifo_admission:
  assumes "1 \<le> n" and "run (RequestQueue_new n) es = Some (s :: 'a RequestQueue_run)"
  shows "started s @ queue s = submitted es
       \<and> int (length (started s)) = int (length (settled s)) + running s
       \<and> int (length (started s)) \<le> int (length (settled s)) + n
       \<and> (\<forall>x r s'. queue s \<noteq> [] \<and> step s (Settle x r) = Some s' \<longrightarrow>
            started s' = started s @ [hd (queue s)] \<and> queue s' = tl (queue s))
       \<and> run (RequestQueue_new 1) [Add a, Add b, Add c]
           = Some \<lparr>maxConcurrent = 1, running = 1, queue = [b, c], inflight = [a],
                   started = [a], settled = []\<rparr>
       \<and> run (RequestQueue_new 1) [Add a, Add b, Add c, Settle a r1]
           = Some \<lparr>maxConcurrent = 1, running = 1, queue = [c], inflight = [b],
                   started = [a, b], settled = [(a, r1)]\<rparr>
       \<and> run (RequestQueue_new 1) [Add a, Add b, Add c, Settle a r1, Settle b r2]
           = Some \<lparr>maxConcurrent = 1, running = 1, queue = [], inflight = [c],
                   started = [a, b, c], settled = [(a, r1), (b, r2)]\<rparr>"
proof -
  from assms(1) have "queue_inv (RequestQueue_new n :: 'a RequestQueue_run)"
    by (simp add: new_inv)
  then have inv: "queue_inv s" using assms(2) by (rule run_inv)
  have m: "maxConcurrent s = n"
    using run_maxConcurrent [OF assms(2)] by (simp add: RequestQueue_new_def)
  have 1: "started s @ queue s = submitted es"
    using run_fifo [OF assms(2)] by (simp add: RequestQueue_new_def)
  have 2: "int (length (started s)) = int (length (settled s)) + running s"
    using inv by (simp add: queue_inv_def)
  have 3: "int (length (started s)) \<le> int (length (settled s)) + n"
    using inv m by (simp add: queue_inv_def)
  have 4: "\<forall>x r s'. queue s \<noteq> [] \<and> step s (Settle x r) = Some s' \<longrightarrow>
            started s' = started s @ [hd (queue s)] \<and> queue s' = tl (queue s)"
    using settle_admits_next [OF inv] by blast
  have 5: "run (RequestQueue_new 1) [Add a, Add b, Add c]
           = Some \<lparr>maxConcurrent = 1, running = 1, queue = [b, c], inflight = [a],
                   started = [a], settled = []\<rparr>"
    by (simp add: RequestQueue_new_def RequestQueue_add_def processNext_def)
  have 6: "run (RequestQueue_new 1) [Add a, Add b, Add c, Settle a r1]
           = Some \<lparr>maxConcurrent = 1, running = 1, queue = [c], inflight = [b],
                   started = [a, b], settled = [(a, r1)]\<rparr>"
    by (simp add: RequestQueue_new_def RequestQueue_add_def settle_def processNext_def)
  have 7: "run (RequestQueue_new 1) [Add a, Add b, Add c, Settle a r1, Settle b r2]
           = Some \<lparr>maxConcurrent = 1, running = 1, queue = [], inflight = [c],
                   started = [a, b, c], settled = [(a, r1), (b, r2)]\<rparr>"
    by (simp add: RequestQueue_new_def RequestQueue_add_def settle_def processNext_def)
  from 1 2 3 4 5 6 7 show ?thesis by (intro conjI)
qed

theorem fifo_admission_witness:
  "(1::int) \<le> 1
   \<and> run (RequestQueue_new 1) [Add ''a'', Add ''b'', Add ''c'']
       = Some \<lparr>maxConcurrent = 1, running = 1, queue = [''b'', ''c''], inflight = [''a''],
               started = [''a''], settled = []\<rparr>
   \<and> step \<lparr>maxConcurrent = 1, running = 1, queue = [''b'', ''c''], inflight = [''a''],
               started = [''a''], settled = []\<rparr> (Settle ''a'' Rejected)
       = Some \<lparr>maxConcurrent = 1, running = 1, queue = [''c''], inflight = [''b''],
               started = [''a'', ''b''], settled = [(''a'', Rejected)]\<rparr>
   \<and> started \<lparr>maxConcurrent = 1, running = 1, queue = [''c''], inflight = [''b''],
               started = [''a'', ''b''], settled = [(''a'', Rejected)]\<rparr>
       = started \<lparr>maxConcurrent = 1, running = 1, queue = [''b'', ''c''], inflight = [''a''],
               started = [''a''], settled = []\<rparr>
         @ [hd (queue \<lparr>maxConcurrent = 1, running = 1, queue = [''b'', ''c''], inflight = [''a''],
               started = [''a''], settled = []\<rparr>)]"
proof -
  let ?s = "\<lparr>maxConcurrent = 1, running = 1, queue = [''b'', ''c''], inflight = [''a''],
               started = [''a''], settled = []\<rparr>"
  let ?s' = "\<lparr>maxConcurrent = 1, running = 1, queue = [''c''], inflight = [''b''],
               started = [''a'', ''b''], settled = [(''a'', Rejected)]\<rparr>"
  have n: "(1::int) \<le> 1" by simp
  have r: "run (RequestQueue_new 1) [Add ''a'', Add ''b'', Add ''c''] = Some ?s"
    by (simp add: RequestQueue_new_def RequestQueue_add_def processNext_def)
  have q: "queue ?s \<noteq> []" by simp
  have st: "step ?s (Settle ''a'' Rejected) = Some ?s'"
    by (simp add: settle_def processNext_def)
  note t = fifo_admission [OF n r, THEN conjunct2, THEN conjunct2, THEN conjunct2, THEN conjunct1,
             THEN spec, THEN spec, THEN spec, THEN mp, OF conjI [OF q st], THEN conjunct1]
  from n r st t show ?thesis by (intro conjI)
qed


section \<open>Gateway client: how fetchWithRetry proceeds\<close>

lemma fetch_count_append: "fetch_count (xs @ ys) = fetch_count xs + fetch_count ys"
  by (induction xs rule: fetch_count.induct) simp_all

lemma delays_append: "delays (xs @ ys) = delays xs @ delays ys"
  by (induction xs rule: delays.induct) simp_all

lemma fetch_trace: "trace (snd (fetch tmo a s)) = trace s @ [Fetch (clock s)]"
  by (simp add: fetch_def Let_def split: settles.splits)

lemma delay_trace: "trace (delay ms s) = trace s @ [Delay ms]"
  by (simp add: delay_def)

lemma fetch_responds:
  "settles a = Responds r \<Longrightarrow> clock s + int (latency a) < tmo \<Longrightarrow>
     fetch tmo a s
       = (Inr r, s\<lparr>trace := trace s @ [Fetch (clock s)], clock := clock s + int (latency a)\<rparr>)"
  by (simp add: fetch_def Let_def)

lemma fetch_transient:
  "transient a \<Longrightarrow> fetch tmo a s = (Inr r, s1) \<Longrightarrow> 500 \<le> status r"
  by (auto simp add: fetch_def transient_def Let_def split: settles.splits if_splits)

lemma fetch_error_source:
  "fetch tmo a s = (Inl e, s1) \<Longrightarrow> e = AbortError \<or> settles a = Rejects e"
  by (auto simp add: fetch_def Let_def split: settles.splits if_splits)

lemma fetchWithRetry_last:
  "retryAttempts c \<le> int a \<Longrightarrow> fetchWithRetry c net a s = fetch (timeout c) (net a) s"
  by (subst fetchWithRetry.simps) (simp split: prod.splits sum.splits)

lemma fetchWithRetry_retry:
  "int a < retryAttempts c \<Longrightarrow> transient (net a) \<Longrightarrow>
     fetchWithRetry c net a s
       = fetchWithRetry c net (a + 1)
           (delay (retryDelay c * int a) (snd (fetch (timeout c) (net a) s)))"
  by (subst fetchWithRetry.simps) (auto split: prod.splits sum.splits dest: fetch_transient)

lemma fetchWithRetry_no_retry:
  "fetch (timeout c) (net a) s = (Inr r, s1) \<Longrightarrow> status r < 500 \<Longrightarrow>
     fetchWithRetry c net a s = (Inr r, s1)"
  by (subst fetchWithRetry.simps) simp

lemma retry_trace:
  "(\<forall>k. a \<le> k \<and> int k < retryAttempts c \<longrightarrow> transient (net k)) \<Longrightarrow>
     fetch_count (trace (snd (fetchWithRetry c net a s)))
       = fetch_count (trace s) + (nat (retryAttempts c) - a) + 1
   \<and> delays (trace (snd (fetchWithRetry c net a s)))
       = delays (trace s) @ map (\<lambda>k. retryDelay c * int k) [a ..< nat (retryAttempts c)]"
proof (induction "nat (retryAttempts c) - a" arbitrary: a s)
  case 0
  then have le: "retryAttempts c \<le> int a" by simp
  then have "[a ..< nat (retryAttempts c)] = []" by simp
  with le 0 show ?case
    by (simp add: fetchWithRetry_last fetch_trace fetch_count_append delays_append)
next
  case (Suc m)
  then have lt: "int a < retryAttempts c" by simp
  with Suc.prems have tr: "transient (net a)" by simp
  let ?s = "delay (retryDelay c * int a) (snd (fetch (timeout c) (net a) s))"
  have m: "m = nat (retryAttempts c) - (a + 1)" using Suc.hyps(2) by simp
  have later: "\<forall>k. a + 1 \<le> k \<and> int k < retryAttempts c \<longrightarrow> transient (net k)"
    using Suc.prems by simp
  have up: "[a ..< nat (retryAttempts c)] = a # [a + 1 ..< nat (retryAttempts c)]"
    using lt by (simp add: upt_conv_Cons)
  from Suc.hyps(1) [OF m later, of ?s] lt show ?case
    by (simp add: fetchWithRetry_retry [of a c net, OF lt tr] fetch_trace delay_trace
          fetch_count_append delays_append up)
qed

lemma fetch_count_bound:
  "fetch_count (trace (snd (fetchWithRetry c net a s)))
     \<le> fetch_count (trace s) + (nat (retryAttempts c) - a) + 1"
proof (induction c net a s rule: fetchWithRetry.induct)
  case (1 c net attempt s)
  show ?case
  proof (cases "int attempt < retryAttempts c")
    case False
    then show ?thesis
      by (simp add: fetchWithRetry_last fetch_trace fetch_count_append)
  next
    case True
    obtain res s1 where f: "fetch (timeout c) (net attempt) s = (res, s1)"
      by (cases "fetch (timeout c) (net attempt) s")
    have t1: "trace s1 = trace s @ [Fetch (clock s)]"
      using fetch_trace [of "timeout c" "net attempt" s] f by simp
    show ?thesis
    proof (cases res)
      case (Inl error)
      from "1.IH"(1) [OF f [symmetric] Inl True] True show ?thesis
        by (subst fetchWithRetry.simps)
           (simp add: f Inl t1 delay_trace fetch_count_append)
    next
      case (Inr response)
      show ?thesis
      proof (cases "500 \<le> status response")
        case server_error: True
        from "1.IH"(2) [OF f [symmetric] Inr conjI [OF server_error True]] True server_error
        show ?thesis
          by (subst fetchWithRetry.simps)
             (simp add: f Inr t1 delay_trace fetch_count_append)
      next
        case False
        then show ?thesis
          by (subst fetchWithRetry.simps) (simp add: f Inr t1 fetch_count_append)
      qed
    qed
  qed
qed

lemma fetchWithRetry_error_source:
  "fetchWithRetry c net a s = (Inl e, s') \<Longrightarrow>
     e = AbortError \<or> (\<exists>k. a \<le> k \<and> settles (net k) = Rejects e)"
proof (induction c net a s rule: fetchWithRetry.induct)
  case (1 c net attempt s)
  obtain res s1 where f: "fetch (timeout c) (net attempt) s = (res, s1)"
    by (cases "fetch (timeout c) (net attempt) s")
  show ?case
  proof (cases res)
    case (Inl error)
    show ?thesis
    proof (cases "int attempt < retryAttempts c")
      case True
      have "fetchWithRetry c net (attempt + 1) (delay (retryDelay c * int attempt) s1) = (Inl e, s')"
        using "1.prems" True by (subst (asm) fetchWithRetry.simps) (simp add: f Inl)
      from "1.IH"(1) [OF f [symmetric] Inl True this] show ?thesis
        by (auto intro: exI [of _ "Suc _"])
    next
      case False
      then have "error = e"
        using "1.prems" by (subst (asm) fetchWithRetry.simps) (simp add: f Inl)
      with fetch_error_source [of "timeout c" "net attempt" s error s1] f Inl show ?thesis
        by auto
    qed
  next
    case (Inr response)
    show ?thesis
    proof (cases "500 \<le> status response \<and> int attempt < retryAttempts c")
      case True
      have "fetchWithRetry c net (attempt + 1) (delay (retryDelay c * int attempt) s1) = (Inl e, s')"
        using "1.prems" True by (subst (asm) fetchWithRetry.simps) (simp add: f Inr)
      from "1.IH"(2) [OF f [symmetric] Inr True this] show ?thesis
        by (auto intro: exI [of _ "Suc _"])
    next
      case False
      have "fetchWithRetry c net attempt s = (Inr response, s1)"
        using False by (subst fetchWithRetry.simps) (auto simp add: f Inr)
      with "1.prems" show ?thesis by simp
    qed
  qed
qed

lemma three_server_errors:
  assumes n: "retryAttempts c = 3" and d: "0 \<le> retryDelay c"
    and a1: "settles (net 1) = Responds r1" "500 \<le> status r1"
    and a2: "settles (net 2) = Responds r2" "500 \<le> status r2"
    and a3: "settles (net 3) = Responds r3"
    and time: "int (latency (net 1)) + retryDelay c + int (latency (net 2)) + 2 * retryDelay c
                 + int (latency (net 3)) < timeout c"
  shows "fetchWithRetry c net 1 io_start
           = (Inr r3,
              \<lparr>clock = int (latency (net 1)) + retryDelay c + int (latency (net 2))
                        + 2 * retryDelay c + int (latency (net 3)),
               trace = [Fetch 0, Delay (retryDelay c),
                        Fetch (int (latency (net 1)) + retryDelay c),
                        Delay (2 * retryDelay c),
                        Fetch (int (latency (net 1)) + retryDelay c + int (latency (net 2))
                                 + 2 * retryDelay c)]\<rparr>)"
proof -
  have t1: "transient (net 1)" and t2: "transient (net 2)"
    using a1 a2 by (simp_all add: transient_def)
  let ?s1 = "\<lparr>clock = int (latency (net 1)), trace = [Fetch 0]\<rparr>"
  have f1: "fetch (timeout c) (net 1) io_start = (Inr r1, ?s1)"
    using a1(1) time d by (simp add: fetch_responds io_start_def)
  let ?s1' = "\<lparr>clock = int (latency (net 1)) + retryDelay c,
               trace = [Fetch 0, Delay (retryDelay c)]\<rparr>"
  have d1: "delay (retryDelay c * int 1) ?s1 = ?s1'"
    using d by (simp add: delay_def)
  let ?s2 = "\<lparr>clock = int (latency (net 1)) + retryDelay c + int (latency (net 2)),
              trace = [Fetch 0, Delay (retryDelay c),
                       Fetch (int (latency (net 1)) + retryDelay c)]\<rparr>"
  have f2: "fetch (timeout c) (net 2) ?s1' = (Inr r2, ?s2)"
    using a2(1) time d by (simp add: fetch_responds)
  let ?s2' = "\<lparr>clock = int (latency (net 1)) + retryDelay c + int (latency (net 2))
                         + 2 * retryDelay c,
               trace = [Fetch 0, Delay (retryDelay c),
                        Fetch (int (latency (net 1)) + retryDelay c),
                        Delay (2 * retryDelay c)]\<rparr>"
  have d2: "delay (retryDelay c * int 2) ?s2 = ?s2'"
    using d by (simp add: delay_def)
  have f3: "fetch (timeout c) (net 3) ?s2'
              = (Inr r3,
              \<lparr>clock = int (latency (net 1)) + retryDelay c + int (latency (net 2))
                        + 2 * retryDelay c + int (latency (net 3)),
               trace = [Fetch 0, Delay (retryDelay c),
                        Fetch (int (latency (net 1)) + retryDelay c),
                        Delay (2 * retryDelay c),
                        Fetch (int (latency (net 1)) + retryDelay c + int (latency (net 2))
                                 + 2 * retryDelay c)]\<rparr>)"
    using a3 time d by (simp add: fetch_responds)
  have "fetchWithRetry c net 1 io_start
          = fetchWithRetry c net (1 + 1)
              (delay (retryDelay c * int 1) (snd (fetch (timeout c) (net 1) io_start)))"
    by (rule fetchWithRetry_retry) (use n t1 in simp_all)
  also have "\<dots> = fetchWithRetry c net 2 ?s1'"
    by (simp only: f1 snd_conv d1 one_add_one)
  also have "\<dots> = fetchWithRetry c net (2 + 1)
              (delay (retryDelay c * int 2) (snd (fetch (timeout c) (net 2) ?s1')))"
    by (rule fetchWithRetry_retry) (use n t2 in simp_all)
  also have "\<dots> = fetchWithRetry c net 3 ?s2'"
  proof -
    have "(2::nat) + 1 = 3" by simp
    then show ?thesis by (simp only: f2 snd_conv d2)
  qed
  also have "\<dots> = fetch (timeout c) (net 3) ?s2'"
    by (rule fetchWithRetry_last) (use n in simp)
  finally show ?thesis using f3 by simp
qed

section \<open>Gateway client: what request surfaces\<close>

lemma request_timeout:
  "apply_interceptors (requestInterceptors c) (initial_config c u opts) = Inr cfg \<Longrightarrow>
   fetchWithRetry c (net cfg) 1 io_start = (Inl e, s) \<Longrightarrow> error_name e = ''AbortError'' \<Longrightarrow>
     request c net u opts = (Inl (APIError (JStr ''Request timeout'') 408 JNull), s)"
  by (simp add: request_def catch_def new_APIError_def)

lemma request_rethrows:
  "apply_interceptors (requestInterceptors c) (initial_config c u opts) = Inr cfg \<Longrightarrow>
   fetchWithRetry c (net cfg) 1 io_start = (Inl e, s) \<Longrightarrow> error_name e \<noteq> ''AbortError'' \<Longrightarrow>
     request c net u opts = (Inl e, s)"
  by (simp add: request_def catch_def)

lemma request_decode_fails:
  "apply_interceptors (requestInterceptors c) (initial_config c u opts) = Inr cfg \<Longrightarrow>
   fetchWithRetry c (net cfg) 1 io_start = (Inr r, s) \<Longrightarrow>
   decode r = Inl e \<Longrightarrow> error_name e \<noteq> ''AbortError'' \<Longrightarrow>
     request c net u opts = (Inl e, s)"
  by (simp add: request_def catch_def)

lemma request_interceptor_fails:
  "apply_interceptors (requestInterceptors c) (initial_config c u opts) = Inr cfg \<Longrightarrow>
   fetchWithRetry c (net cfg) 1 io_start = (Inr r, s) \<Longrightarrow>
   decode r = Inr d \<Longrightarrow>
   apply_interceptors (responseInterceptors c)
     \<lparr>res_status = status r, res_statusText = statusText r,
      res_content_type = content_type r, res_data = d\<rparr> = Inl e \<Longrightarrow>
   error_name e \<noteq> ''AbortError'' \<Longrightarrow>
     request c net u opts = (Inl e, s)"
  by (simp add: request_def catch_def)

lemma request_not_ok:
  "apply_interceptors (requestInterceptors c) (initial_config c u opts) = Inr cfg \<Longrightarrow>
   fetchWithRetry c (net cfg) 1 io_start = (Inr r, s) \<Longrightarrow> \<not> ok r \<Longrightarrow>
   decode r = Inr d \<Longrightarrow>
   apply_interceptors (responseInterceptors c)
     \<lparr>res_status = status r, res_statusText = statusText r,
      res_content_type = content_type r, res_data = d\<rparr> = Inr res \<Longrightarrow>
     request c net u opts
       = (Inl (APIError (js_or (optional_message (res_data res)) (JStr (statusText r)))
                 (status r) (if res_data res = JUndefined then JNull else res_data res)), s)"
  by (simp add: request_def catch_def new_APIError_def)

lemma request_not_ok_fails:
  "apply_interceptors (requestInterceptors c) (initial_config c u opts) = Inr cfg \<Longrightarrow>
   fetchWithRetry c (net cfg) 1 io_start = (Inr r, s) \<Longrightarrow> \<not> ok r \<Longrightarrow>
     \<exists>e. request c net u opts = (Inl e, s)"
  by (simp add: request_def catch_def new_APIError_def split: sum.splits)

lemmas client_defs = APIClient_new_def API_CONFIG_def addRequestInterceptor_def
  default_headers_interceptor_def initial_config_def spread_def io_start_def

lemmas request_defs = request_def fetchWithRetry.simps fetch_def delay_def AbortError_def
  catch_def new_APIError_def decode_def ok_def js_or_def


section \<open>Gateway client: retry policy\<close>

text \<open>
  Claim C4, as the code has it. When every attempt before the last configured one ends in
  a transport failure or a server error, \<open>fetchWithRetry\<close> calls \<open>fetch\<close> once per configured
  attempt (\<open>retryAttempts\<close> calls in all, one call when fewer than one is configured), and
  before the retry that follows attempt \<open>k\<close> it waits \<open>retryDelay * k\<close>; whatever the network
  does, it never calls \<open>fetch\<close> more often than that. With three attempts configured and a
  response of status 503 on each of them, all arriving before the timeout, the third
  response is the one \<open>request\<close> works on, and \<open>request\<close> fails with an \<open>APIError\<close> of status
  503, provided the body of that response decodes and the response interceptors return.
\<close>

theorem retry_policy:
  "((\<forall>k. 1 \<le> k \<and> int k < retryAttempts c \<longrightarrow> transient (net k)) \<longrightarrow>
       fetch_count (trace (snd (fetchWithRetry c net 1 io_start))) = max 1 (nat (retryAttempts c))
     \<and> delays (trace (snd (fetchWithRetry c net 1 io_start)))
         = map (\<lambda>k. retryDelay c * int k) [1 ..< nat (retryAttempts c)])
   \<and> fetch_count (trace (snd (fetchWithRetry c net 1 io_start))) \<le> max 1 (nat (retryAttempts c))
   \<and> (retryAttempts c = 3 \<and> 0 \<le> retryDelay c
        \<and> apply_interceptors (requestInterceptors c) (initial_config c u opts) = Inr cfg
        \<and> settles (remote cfg 1) = Responds r1 \<and> status r1 = 503
        \<and> settles (remote cfg 2) = Responds r2 \<and> status r2 = 503
        \<and> settles (remote cfg 3) = Responds r3 \<and> status r3 = 503
        \<and> int (latency (remote cfg 1)) + retryDelay c + int (latency (remote cfg 2))
             + 2 * retryDelay c + int (latency (remote cfg 3)) < timeout c
        \<and> decode r3 = Inr d
        \<and> apply_interceptors (responseInterceptors c)
             \<lparr>res_status = status r3, res_statusText = statusText r3,
              res_content_type = content_type r3, res_data = d\<rparr> = Inr res
      \<longrightarrow>
        request c remote u opts
          = (Inl (APIError (js_or (optional_message (res_data res)) (JStr (statusText r3)))
                    503 (if res_data res = JUndefined then JNull else res_data res)),
             \<lparr>clock = int (latency (remote cfg 1)) + retryDelay c + int (latency (remote cfg 2))
                       + 2 * retryDelay c + int (latency (remote cfg 3)),
              trace = [Fetch 0, Delay (retryDelay c),
                       Fetch (int (latency (remote cfg 1)) + retryDelay c),
                       Delay (2 * retryDelay c),
                       Fetch (int (latency (remote cfg 1)) + retryDelay c
                                + int (latency (remote cfg 2)) + 2 * retryDelay c)]\<rparr>))"
proof (intro conjI impI)
  assume tr: "\<forall>k. 1 \<le> k \<and> int k < retryAttempts c \<longrightarrow> transient (net k)"
  from retry_trace [OF tr, of io_start]
  show "fetch_count (trace (snd (fetchWithRetry c net 1 io_start))) = max 1 (nat (retryAttempts c))"
    and "delays (trace (snd (fetchWithRetry c net 1 io_start)))
         = map (\<lambda>k. retryDelay c * int k) [1 ..< nat (retryAttempts c)]"
    by (auto simp add: io_start_def)
next
  from fetch_count_bound [of c net 1 io_start]
  show "fetch_count (trace (snd (fetchWithRetry c net 1 io_start))) \<le> max 1 (nat (retryAttempts c))"
    by (auto simp add: io_start_def)
next
  assume h: "retryAttempts c = 3 \<and> 0 \<le> retryDelay c
        \<and> apply_interceptors (requestInterceptors c) (initial_config c u opts) = Inr cfg
        \<and> settles (remote cfg 1) = Responds r1 \<and> status r1 = 503
        \<and> settles (remote cfg 2) = Responds r2 \<and> status r2 = 503
        \<and> settles (remote cfg 3) = Responds r3 \<and> status r3 = 503
        \<and> int (latency (remote cfg 1)) + retryDelay c + int (latency (remote cfg 2))
             + 2 * retryDelay c + int (latency (remote cfg 3)) < timeout c
        \<and> decode r3 = Inr d
        \<and> apply_interceptors (responseInterceptors c)
             \<lparr>res_status = status r3, res_statusText = statusText r3,
              res_content_type = content_type r3, res_data = d\<rparr> = Inr res"
  let ?s = "\<lparr>clock = int (latency (remote cfg 1)) + retryDelay c + int (latency (remote cfg 2))
                       + 2 * retryDelay c + int (latency (remote cfg 3)),
              trace = [Fetch 0, Delay (retryDelay c),
                       Fetch (int (latency (remote cfg 1)) + retryDelay c),
                       Delay (2 * retryDelay c),
                       Fetch (int (latency (remote cfg 1)) + retryDelay c
                                + int (latency (remote cfg 2)) + 2 * retryDelay c)]\<rparr>"
  from h have n: "retryAttempts c = 3" and dl: "0 \<le> retryDelay c"
    and ri: "apply_interceptors (requestInterceptors c) (initial_config c u opts) = Inr cfg"
    and a1: "settles (remote cfg 1) = Responds r1" and b1: "status r1 = 503"
    and a2: "settles (remote cfg 2) = Responds r2" and b2: "status r2 = 503"
    and a3: "settles (remote cfg 3) = Responds r3" and b3: "status r3 = 503"
    and time: "int (latency (remote cfg 1)) + retryDelay c + int (latency (remote cfg 2))
                 + 2 * retryDelay c + int (latency (remote cfg 3)) < timeout c"
    and dec: "decode r3 = Inr d"
    and rsi: "apply_interceptors (responseInterceptors c)
             \<lparr>res_status = status r3, res_statusText = statusText r3,
              res_content_type = content_type r3, res_data = d\<rparr> = Inr res"
    by blast+
  from b1 b2 have c1: "500 \<le> status r1" and c2: "500 \<le> status r2" by simp_all
  have fr: "fetchWithRetry c (remote cfg) 1 io_start = (Inr r3, ?s)"
    using n dl a1 c1 a2 c2 a3 time by (rule three_server_errors)
  have nok: "\<not> ok r3" using b3 by (simp add: ok_def)
  have "request c remote u opts
          = (Inl (APIError (js_or (optional_message (res_data res)) (JStr (statusText r3)))
                    (status r3) (if res_data res = JUndefined then JNull else res_data res)), ?s)"
    using ri fr nok dec rsi by (rule request_not_ok)
  then show "request c remote u opts
          = (Inl (APIError (js_or (optional_message (res_data res)) (JStr (statusText r3)))
                    503 (if res_data res = JUndefined then JNull else res_data res)), ?s)"
    using b3 by simp
qed


theorem retry_policy_witness:
  "retryAttempts (APIClient_new API_CONFIG ''localhost'') = 3
   \<and> fetch_count (trace (snd (fetchWithRetry (APIClient_new API_CONFIG ''localhost'')
         (\<lambda>k. \<lparr>latency = 50, settles = Rejects (Error ''TypeError'' ''Failed to fetch'')\<rparr>)
         1 io_start))) = 3
   \<and> delays (trace (snd (fetchWithRetry (APIClient_new API_CONFIG ''localhost'')
         (\<lambda>k. \<lparr>latency = 50, settles = Rejects (Error ''TypeError'' ''Failed to fetch'')\<rparr>)
         1 io_start))) = [1000, 2000]
   \<and> request (APIClient_new API_CONFIG ''localhost'')
        (\<lambda>cfg k. \<lparr>latency = 50, settles = Responds
            \<lparr>status = 503, statusText = ''Service Unavailable'',
             content_type = Some ''application/json'',
             body_json = Inr (JObj [(''detail'', JStr ''down'')]), body_text = []\<rparr>\<rparr>)
        ''/teams/'' \<lparr>opt_method = None, opt_headers = None, opt_body = None\<rparr>
       = (Inl (APIError (JStr ''Service Unavailable'') 503 (JObj [(''detail'', JStr ''down'')])),
          \<lparr>clock = 3150, trace = [Fetch 0, Delay 1000, Fetch 1050, Delay 2000, Fetch 3100]\<rparr>)"
proof -
  let ?c = "APIClient_new API_CONFIG ''localhost''"
  let ?net = "\<lambda>k::nat. \<lparr>latency = 50, settles = Rejects (Error ''TypeError'' ''Failed to fetch'')\<rparr>"
  let ?r = "\<lparr>status = 503, statusText = ''Service Unavailable'',
             content_type = Some ''application/json'',
             body_json = Inr (JObj [(''detail'', JStr ''down'')]), body_text = []\<rparr>"
  let ?remote = "\<lambda>(cfg::config) (k::nat). \<lparr>latency = 50, settles = Responds ?r\<rparr>"
  let ?opts = "\<lparr>opt_method = None, opt_headers = None, opt_body = None\<rparr>"
  let ?cfg = "\<lparr>http_method = ''GET'',
              headers = [(''Content-Type'', ''application/json''), (''Accept'', ''application/json'')],
              url = ''http://localhost:8000/api/v2/teams/'', body = None\<rparr>"
  let ?d = "JObj [(''detail'', JStr ''down'')]"
  let ?res = "\<lparr>res_status = 503, res_statusText = ''Service Unavailable'',
              res_content_type = Some ''application/json'', res_data = ?d\<rparr>"
  have n: "retryAttempts ?c = 3" and dl: "retryDelay ?c = 1000" and tmo: "timeout ?c = 30000"
    by (simp_all add: client_defs)
  have tr: "\<forall>k. 1 \<le> k \<and> int k < retryAttempts ?c \<longrightarrow> transient (?net k)"
    by (simp add: transient_def)
  have ri: "apply_interceptors (requestInterceptors ?c) (initial_config ?c ''/teams/'' ?opts)
              = Inr ?cfg"
    by (simp add: client_defs)
  have dec: "decode ?r = Inr ?d" by (simp add: decode_def)
  have rsi: "apply_interceptors (responseInterceptors ?c)
               \<lparr>res_status = status ?r, res_statusText = statusText ?r,
                res_content_type = content_type ?r, res_data = ?d\<rparr> = Inr ?res"
    by (simp add: client_defs)
  note t = retry_policy [of ?c ?net "''/teams/''" ?opts ?cfg ?remote ?r ?r ?r ?d ?res]
  have up: "[1 ..< nat 3] = [1, 2]" by (simp add: upt_rec)
  have 1: "fetch_count (trace (snd (fetchWithRetry ?c ?net 1 io_start))) = 3"
    using t [THEN conjunct1, THEN mp, OF tr, THEN conjunct1] n by simp
  have 2: "delays (trace (snd (fetchWithRetry ?c ?net 1 io_start))) = [1000, 2000]"
    using t [THEN conjunct1, THEN mp, OF tr, THEN conjunct2] n dl up by simp
  have 3: "request ?c ?remote ''/teams/'' ?opts
       = (Inl (APIError (JStr ''Service Unavailable'') 503 ?d),
          \<lparr>clock = 3150, trace = [Fetch 0, Delay 1000, Fetch 1050, Delay 2000, Fetch 3100]\<rparr>)"
    using t [THEN conjunct2, THEN conjunct2, THEN mp] n dl tmo ri dec rsi
    by (simp add: js_or_def)
  from n 1 2 3 show ?thesis by (intro conjI)
qed

text \<open>
  Claim C4 as stated fails where the body of the last response does not decode: with the
  configuration of the file and a response of status 503 on each of the three attempts
  whose body is announced as JSON and is not JSON, \<open>request\<close> makes the three attempts and
  fails with the \<open>SyntaxError\<close> of the decoder, which is not an \<open>APIError\<close> and carries no
  status.
\<close>

theorem server_error_undecodable_counterexample:
  "request (APIClient_new API_CONFIG ''localhost'')
     (\<lambda>cfg k. \<lparr>latency = 50, settles = Responds
         \<lparr>status = 503, statusText = ''Service Unavailable'',
          content_type = Some ''application/json'',
          body_json = Inl (Error ''SyntaxError'' ''Unexpected end of JSON input''),
          body_text = []\<rparr>\<rparr>)
     ''/teams/'' \<lparr>opt_method = None, opt_headers = None, opt_body = None\<rparr>
   = (Inl (Error ''SyntaxError'' ''Unexpected end of JSON input''),
      \<lparr>clock = 3150, trace = [Fetch 0, Delay 1000, Fetch 1050, Delay 2000, Fetch 3100]\<rparr>)"
  by (simp add: request_defs client_defs)

section \<open>Gateway client: client errors\<close>

text \<open>
  Claim C5, as the code has it. When the first attempt is answered, before the timeout,
  with a status from 400 to 499, \<open>fetchWithRetry\<close> returns that response after this one call
  of \<open>fetch\<close> and without any delay, and \<open>request\<close> fails at that moment; the failure is an
  \<open>APIError\<close> carrying the status of the response whenever the body decodes and the
  response interceptors return.
\<close>

theorem client_error_not_retried:
  assumes "apply_interceptors (requestInterceptors c) (initial_config c u opts) = Inr cfg"
    and "settles (net cfg 1) = Responds r"
    and "int (latency (net cfg 1)) < timeout c"
    and "400 \<le> status r" and "status r \<le> 499"
  shows "fetchWithRetry c (net cfg) 1 io_start
           = (Inr r, \<lparr>clock = int (latency (net cfg 1)), trace = [Fetch 0]\<rparr>)
       \<and> (\<exists>e. request c net u opts
                = (Inl e, \<lparr>clock = int (latency (net cfg 1)), trace = [Fetch 0]\<rparr>))
       \<and> (\<forall>d res. decode r = Inr d
             \<and> apply_interceptors (responseInterceptors c)
                  \<lparr>res_status = status r, res_statusText = statusText r,
                   res_content_type = content_type r, res_data = d\<rparr> = Inr res
           \<longrightarrow> request c net u opts
                 = (Inl (APIError (js_or (optional_message (res_data res)) (JStr (statusText r)))
                           (status r) (if res_data res = JUndefined then JNull else res_data res)),
                    \<lparr>clock = int (latency (net cfg 1)), trace = [Fetch 0]\<rparr>))"
proof -
  let ?s = "\<lparr>clock = int (latency (net cfg 1)), trace = [Fetch 0]\<rparr>"
  have f: "fetch (timeout c) (net cfg 1) io_start = (Inr r, ?s)"
    using assms(2,3) by (simp add: fetch_responds io_start_def)
  have fr: "fetchWithRetry c (net cfg) 1 io_start = (Inr r, ?s)"
    using f assms(5) by (simp add: fetchWithRetry_no_retry)
  have nok: "\<not> ok r" using assms(4) by (simp add: ok_def)
  have fails: "\<exists>e. request c net u opts = (Inl e, ?s)"
    using assms(1) fr nok by (rule request_not_ok_fails)
  have typed: "\<forall>d res. decode r = Inr d
             \<and> apply_interceptors (responseInterceptors c)
                  \<lparr>res_status = status r, res_statusText = statusText r,
                   res_content_type = content_type r, res_data = d\<rparr> = Inr res
           \<longrightarrow> request c net u opts
                 = (Inl (APIError (js_or (optional_message (res_data res)) (JStr (statusText r)))
                           (status r) (if res_data res = JUndefined then JNull else res_data res)),
                    ?s)"
    using request_not_ok [where net = net, OF assms(1) fr nok] by blast
  from fr fails typed show ?thesis by (intro conjI)
qed

theorem client_error_not_retried_witness:
  "(50::int) < 30000 \<and> (400::int) \<le> 404 \<and> (404::int) \<le> 499
   \<and> fetchWithRetry (APIClient_new API_CONFIG ''localhost'')
        (\<lambda>k. \<lparr>latency = 50, settles = Responds
            \<lparr>status = 404, statusText = ''Not Found'', content_type = Some ''application/json'',
             body_json = Inr (JObj [(''detail'', JStr ''Not found.'')]), body_text = []\<rparr>\<rparr>)
        1 io_start
       = (Inr \<lparr>status = 404, statusText = ''Not Found'', content_type = Some ''application/json'',
               body_json = Inr (JObj [(''detail'', JStr ''Not found.'')]), body_text = []\<rparr>,
          \<lparr>clock = 50, trace = [Fetch 0]\<rparr>)
   \<and> request (APIClient_new API_CONFIG ''localhost'')
        (\<lambda>cfg k. \<lparr>latency = 50, settles = Responds
            \<lparr>status = 404, statusText = ''Not Found'', content_type = Some ''application/json'',
             body_json = Inr (JObj [(''detail'', JStr ''Not found.'')]), body_text = []\<rparr>\<rparr>)
        ''/teams/'' \<lparr>opt_method = None, opt_headers = None, opt_body = None\<rparr>
       = (Inl (APIError (JStr ''Not Found'') 404 (JObj [(''detail'', JStr ''Not found.'')])),
          \<lparr>clock = 50, trace = [Fetch 0]\<rparr>)"
proof -
  let ?c = "APIClient_new API_CONFIG ''localhost''"
  let ?d = "JObj [(''detail'', JStr ''Not found.'')]"
  let ?r = "\<lparr>status = 404, statusText = ''Not Found'', content_type = Some ''application/json'',
             body_json = Inr ?d, body_text = []\<rparr>"
  let ?net = "\<lambda>(cfg::config) (k::nat). \<lparr>latency = 50, settles = Responds ?r\<rparr>"
  let ?opts = "\<lparr>opt_method = None, opt_headers = None, opt_body = None\<rparr>"
  let ?cfg = "\<lparr>http_method = ''GET'',
              headers = [(''Content-Type'', ''application/json''), (''Accept'', ''application/json'')],
              url = ''http://localhost:8000/api/v2/teams/'', body = None\<rparr>"
  let ?res = "\<lparr>res_status = 404, res_statusText = ''Not Found'',
              res_content_type = Some ''application/json'', res_data = ?d\<rparr>"
  have ri: "apply_interceptors (requestInterceptors ?c) (initial_config ?c ''/teams/'' ?opts)
              = Inr ?cfg"
    by (simp add: client_defs)
  have a: "settles (?net ?cfg 1) = Responds ?r" by simp
  have l: "int (latency (?net ?cfg 1)) < timeout ?c" by (simp add: client_defs)
  have lo: "400 \<le> status ?r" and hi: "status ?r \<le> 499" by simp_all
  have dec: "decode ?r = Inr ?d" by (simp add: decode_def)
  have rsi: "apply_interceptors (responseInterceptors ?c)
               \<lparr>res_status = status ?r, res_statusText = statusText ?r,
                res_content_type = content_type ?r, res_data = ?d\<rparr> = Inr ?res"
    by (simp add: client_defs)
  note t = client_error_not_retried [OF ri a l lo hi]
  have 1: "fetchWithRetry ?c (?net ?cfg) 1 io_start = (Inr ?r, \<lparr>clock = 50, trace = [Fetch 0]\<rparr>)"
    using t [THEN conjunct1] by simp
  have 2: "request ?c ?net ''/teams/'' ?opts
       = (Inl (APIError (JStr ''Not Found'') 404 ?d), \<lparr>clock = 50, trace = [Fetch 0]\<rparr>)"
    using t [THEN conjunct2, THEN conjunct2, THEN spec, THEN spec, THEN mp, OF conjI [OF dec rsi]]
    by (simp add: js_or_def)
  from 1 2 show ?thesis by simp
qed

text \<open>
  Claim C5 as stated fails where the body does not decode: a response of status 404 whose
  body is announced as JSON and is not JSON is not retried, and \<open>request\<close> fails at once,
  but with the \<open>SyntaxError\<close> of the decoder, which carries no status.
\<close>

theorem client_error_undecodable_counterexample:
  "request (APIClient_new API_CONFIG ''localhost'')
     (\<lambda>cfg k. \<lparr>latency = 50, settles = Responds
         \<lparr>status = 404, statusText = ''Not Found'',
          content_type = Some ''application/json'',
          body_json = Inl (Error ''SyntaxError'' ''Unexpected end of JSON input''),
          body_text = []\<rparr>\<rparr>)
     ''/teams/'' \<lparr>opt_method = None, opt_headers = None, opt_body = None\<rparr>
   = (Inl (Error ''SyntaxError'' ''Unexpected end of JSON input''),
      \<lparr>clock = 50, trace = [Fetch 0]\<rparr>)"
  by (simp add: request_defs client_defs)


section \<open>Gateway client: the timeout and the shape of failures\<close>

lemma fetch_after_abort:
  "tmo \<le> clock s \<Longrightarrow>
     fetch tmo a s = (Inl AbortError, s\<lparr>trace := trace s @ [Fetch (clock s)]\<rparr>)"
  by (simp add: fetch_def Let_def)

lemma fetch_unsettled:
  "settles a = Never \<or> tmo \<le> clock s + int (latency a) \<Longrightarrow>
     fst (fetch tmo a s) = Inl AbortError \<and> tmo \<le> clock (snd (fetch tmo a s))"
  by (auto simp add: fetch_def Let_def)

lemma fetchWithRetry_after_abort:
  "timeout c \<le> clock s \<Longrightarrow> fst (fetchWithRetry c net a s) = Inl AbortError"
proof (induction c net a s rule: fetchWithRetry.induct)
  case (1 c net attempt s)
  let ?s1 = "s\<lparr>trace := trace s @ [Fetch (clock s)]\<rparr>"
  have f: "fetch (timeout c) (net attempt) s = (Inl AbortError, ?s1)"
    using "1.prems" by (rule fetch_after_abort)
  show ?case
  proof (cases "int attempt < retryAttempts c")
    case True
    have "timeout c \<le> clock (delay (retryDelay c * int attempt) ?s1)"
      using "1.prems" by (simp add: delay_def)
    from "1.IH"(1) [OF f [symmetric] refl True this] True show ?thesis
      by (subst fetchWithRetry.simps) (simp add: f)
  next
    case False
    then show ?thesis by (subst fetchWithRetry.simps) (simp add: f)
  qed
qed

lemma fetchWithRetry_error_step:
  "fetch (timeout c) (net a) s = (Inl e, s1) \<Longrightarrow> int a < retryAttempts c \<Longrightarrow>
     fetchWithRetry c net a s
       = fetchWithRetry c net (a + 1) (delay (retryDelay c * int a) s1)"
  by (subst fetchWithRetry.simps) simp

lemma fetchWithRetry_error_last:
  "fetch (timeout c) (net a) s = (Inl e, s1) \<Longrightarrow> \<not> int a < retryAttempts c \<Longrightarrow>
     fetchWithRetry c net a s = (Inl e, s1)"
  by (subst fetchWithRetry.simps) simp

lemma attempt_unsettled:
  assumes "settles (net a) = Never \<or> timeout c \<le> clock s + int (latency (net a))"
  shows "fst (fetchWithRetry c net a s) = Inl AbortError"
proof -
  obtain s1 where f: "fetch (timeout c) (net a) s = (Inl AbortError, s1)"
    and late: "timeout c \<le> clock s1"
    using fetch_unsettled [of "net a" "timeout c" s] assms
    by (cases "fetch (timeout c) (net a) s") auto
  show ?thesis
  proof (cases "int a < retryAttempts c")
    case True
    have "timeout c \<le> clock (delay (retryDelay c * int a) s1)"
      using late by (simp add: delay_def)
    then have "fst (fetchWithRetry c net (a + 1) (delay (retryDelay c * int a) s1)) = Inl AbortError"
      by (rule fetchWithRetry_after_abort)
    then show ?thesis by (simp add: fetchWithRetry_error_step [where net = net, OF f True])
  next
    case False
    then show ?thesis by (simp add: fetchWithRetry_error_last [where net = net, OF f])
  qed
qed

lemma first_attempt_unsettled:
  "settles (net 1) = Never \<or> timeout c \<le> int (latency (net 1)) \<Longrightarrow>
     fst (fetchWithRetry c net 1 io_start) = Inl AbortError"
  by (rule attempt_unsettled) (simp add: io_start_def)

text \<open>
  Claim C3, evaluated on the code. With the configuration of the file (timeout 30000 ms,
  3 attempts, base delay 1000 ms) and a first call of \<open>fetch\<close> that never settles, the abort
  at 30000 ms is caught by \<open>fetchWithRetry\<close> like a transport failure: it waits 1000 ms,
  calls \<open>fetch\<close> again at 31000 ms, waits 2000 ms, calls \<open>fetch\<close> a third time at 33000 ms, and
  only then does \<open>request\<close> fail, with the synthetic \<open>APIError\<close> of status 408.
\<close>

theorem timeout_abort_is_retried:
  "request (APIClient_new API_CONFIG ''localhost'')
     (\<lambda>cfg k. \<lparr>latency = 0, settles = Never\<rparr>)
     ''/teams/'' \<lparr>opt_method = None, opt_headers = None, opt_body = None\<rparr>
   = (Inl (APIError (JStr ''Request timeout'') 408 JNull),
      \<lparr>clock = 33000, trace = [Fetch 0, Delay 1000, Fetch 31000, Delay 2000, Fetch 33000]\<rparr>)"
  by (simp add: request_defs client_defs)

text \<open>
  Claim C8, as the code has it. Once the request interceptors have returned, the outcome of
  \<open>fetchWithRetry\<close> decides what \<open>request\<close> surfaces:
  \<^item> an error named \<^verbatim>\<open>AbortError\<close>, which is what a first attempt unsettled at the timeout
    ends in, becomes the \<open>APIError\<close> with message \<^verbatim>\<open>Request timeout\<close>, status 408 and data
    \<open>null\<close>;
  \<^item> an error of another name left when the attempts are used up is the transport error of
    one of the attempts and is rethrown as it is;
  \<^item> an error of the body decoder or of a response interceptor, when not named
    \<^verbatim>\<open>AbortError\<close>, is rethrown as it is;
  \<^item> a response that is not ok, whose body decodes and whose response interceptors return,
    becomes an \<open>APIError\<close> with the status of the response (408 when the server sends 408)
    and the decoded body as data.
\<close>

theorem request_failure_shape:
  assumes "apply_interceptors (requestInterceptors c) (initial_config c u opts) = Inr cfg"
    and "fetchWithRetry c (net cfg) 1 io_start = (res, s)"
  shows "(\<forall>e. res = Inl e \<and> error_name e = ''AbortError'' \<longrightarrow>
            request c net u opts = (Inl (APIError (JStr ''Request timeout'') 408 JNull), s))
       \<and> (settles (net cfg 1) = Never \<or> timeout c \<le> int (latency (net cfg 1)) \<longrightarrow>
            request c net u opts = (Inl (APIError (JStr ''Request timeout'') 408 JNull), s))
       \<and> (\<forall>e. res = Inl e \<and> error_name e \<noteq> ''AbortError'' \<longrightarrow>
            request c net u opts = (Inl e, s) \<and> (\<exists>k. settles (net cfg k) = Rejects e))
       \<and> (\<forall>r e. res = Inr r \<and> decode r = Inl e \<and> error_name e \<noteq> ''AbortError'' \<longrightarrow>
            request c net u opts = (Inl e, s))
       \<and> (\<forall>r d e. res = Inr r \<and> decode r = Inr d
             \<and> apply_interceptors (responseInterceptors c)
                  \<lparr>res_status = status r, res_statusText = statusText r,
                   res_content_type = content_type r, res_data = d\<rparr> = Inl e
             \<and> error_name e \<noteq> ''AbortError'' \<longrightarrow>
            request c net u opts = (Inl e, s))
       \<and> (\<forall>r d result. res = Inr r \<and> \<not> ok r \<and> decode r = Inr d
             \<and> apply_interceptors (responseInterceptors c)
                  \<lparr>res_status = status r, res_statusText = statusText r,
                   res_content_type = content_type r, res_data = d\<rparr> = Inr result
           \<longrightarrow> request c net u opts
                 = (Inl (APIError (js_or (optional_message (res_data result)) (JStr (statusText r)))
                           (status r)
                           (if res_data result = JUndefined then JNull else res_data result)),
                    s))"
proof (intro conjI allI impI)
  fix e
  assume "res = Inl e \<and> error_name e = ''AbortError''"
  with assms show "request c net u opts = (Inl (APIError (JStr ''Request timeout'') 408 JNull), s)"
    by (simp add: request_timeout)
next
  assume "settles (net cfg 1) = Never \<or> timeout c \<le> int (latency (net cfg 1))"
  then have "fst (fetchWithRetry c (net cfg) 1 io_start) = Inl AbortError"
    by (rule first_attempt_unsettled)
  with assms(2) have "fetchWithRetry c (net cfg) 1 io_start = (Inl AbortError, s)" by simp
  with assms(1) show "request c net u opts = (Inl (APIError (JStr ''Request timeout'') 408 JNull), s)"
    by (rule request_timeout) (simp add: AbortError_def)
next
  fix e
  assume h: "res = Inl e \<and> error_name e \<noteq> ''AbortError''"
  with assms show "request c net u opts = (Inl e, s)"
    by (simp add: request_rethrows)
  from h assms(2) have "fetchWithRetry c (net cfg) 1 io_start = (Inl e, s)" by simp
  from fetchWithRetry_error_source [OF this] h
  show "\<exists>k. settles (net cfg k) = Rejects e"
    by (auto simp add: AbortError_def)
next
  fix r e
  assume "res = Inr r \<and> decode r = Inl e \<and> error_name e \<noteq> ''AbortError''"
  with assms show "request c net u opts = (Inl e, s)"
    by (simp add: request_decode_fails)
next
  fix r d e
  assume "res = Inr r \<and> decode r = Inr d
             \<and> apply_interceptors (responseInterceptors c)
                  \<lparr>res_status = status r, res_statusText = statusText r,
                   res_content_type = content_type r, res_data = d\<rparr> = Inl e
             \<and> error_name e \<noteq> ''AbortError''"
  with assms show "request c net u opts = (Inl e, s)"
    by (simp add: request_interceptor_fails)
next
  fix r d result
  assume "res = Inr r \<and> \<not> ok r \<and> decode r = Inr d
             \<and> apply_interceptors (responseInterceptors c)
                  \<lparr>res_status = status r, res_statusText = statusText r,
                   res_content_type = content_type r, res_data = d\<rparr> = Inr result"
  with assms show "request c net u opts
                 = (Inl (APIError (js_or (optional_message (res_data result)) (JStr (statusText r)))
                           (status r)
                           (if res_data result = JUndefined then JNull else res_data result)),
                    s)"
    by (simp add: request_not_ok)
qed

theorem request_failure_shape_witness:
  "request (APIClient_new API_CONFIG ''localhost'')
     (\<lambda>cfg k. \<lparr>latency = 0, settles = Never\<rparr>)
     ''/teams/'' \<lparr>opt_method = None, opt_headers = None, opt_body = None\<rparr>
     = (Inl (APIError (JStr ''Request timeout'') 408 JNull),
        \<lparr>clock = 33000, trace = [Fetch 0, Delay 1000, Fetch 31000, Delay 2000, Fetch 33000]\<rparr>)
   \<and> request (APIClient_new API_CONFIG ''localhost'')
     (\<lambda>cfg k. \<lparr>latency = 40000, settles = Responds
         \<lparr>status = 200, statusText = ''OK'', content_type = Some ''application/json'',
          body_json = Inr (JArr []), body_text = []\<rparr>\<rparr>)
     ''/teams/'' \<lparr>opt_method = None, opt_headers = None, opt_body = None\<rparr>
     = (Inl (APIError (JStr ''Request timeout'') 408 JNull),
        \<lparr>clock = 33000, trace = [Fetch 0, Delay 1000, Fetch 31000, Delay 2000, Fetch 33000]\<rparr>)
   \<and> request (APIClient_new API_CONFIG ''localhost'')
     (\<lambda>cfg k. \<lparr>latency = 50, settles = Rejects (Error ''TypeError'' ''Failed to fetch'')\<rparr>)
     ''/teams/'' \<lparr>opt_method = None, opt_headers = None, opt_body = None\<rparr>
     = (Inl (Error ''TypeError'' ''Failed to fetch''),
        \<lparr>clock = 3150, trace = [Fetch 0, Delay 1000, Fetch 1050, Delay 2000, Fetch 3100]\<rparr>)
   \<and> request (APIClient_new API_CONFIG ''localhost'')
     (\<lambda>cfg k. \<lparr>latency = 50, settles = Responds
         \<lparr>status = 200, statusText = ''OK'', content_type = Some ''application/json'',
          body_json = Inl (Error ''SyntaxError'' ''Unexpected end of JSON input''),
          body_text = []\<rparr>\<rparr>)
     ''/teams/'' \<lparr>opt_method = None, opt_headers = None, opt_body = None\<rparr>
     = (Inl (Error ''SyntaxError'' ''Unexpected end of JSON input''),
        \<lparr>clock = 50, trace = [Fetch 0]\<rparr>)
   \<and> request
     (addResponseInterceptor (APIClient_new API_CONFIG ''localhost'')
        (\<lambda>r. Inl (Error ''Error'' ''rejected by interceptor'')))
     (\<lambda>cfg k. \<lparr>latency = 50, settles = Responds
         \<lparr>status = 200, statusText = ''OK'', content_type = Some ''application/json'',
          body_json = Inr (JArr []), body_text = []\<rparr>\<rparr>)
     ''/teams/'' \<lparr>opt_method = None, opt_headers = None, opt_body = None\<rparr>
     = (Inl (Error ''Error'' ''rejected by interceptor''),
        \<lparr>clock = 50, trace = [Fetch 0]\<rparr>)
   \<and> request (APIClient_new API_CONFIG ''localhost'')
     (\<lambda>cfg k. \<lparr>latency = 50, settles = Responds
         \<lparr>status = 400, statusText = ''Bad Request'', content_type = Some ''application/json'',
          body_json = Inr (JObj [(''message'', JStr ''team_id is required'')]),
          body_text = []\<rparr>\<rparr>)
     ''/teams/'' \<lparr>opt_method = None, opt_headers = None, opt_body = None\<rparr>
     = (Inl (APIError (JStr ''team_id is required'') 400
               (JObj [(''message'', JStr ''team_id is required'')])),
        \<lparr>clock = 50, trace = [Fetch 0]\<rparr>)"
proof -
  let ?c = "APIClient_new API_CONFIG ''localhost''"
  let ?opts = "\<lparr>opt_method = None, opt_headers = None, opt_body = None\<rparr>"
  let ?cfg = "\<lparr>http_method = ''GET'',
              headers = [(''Content-Type'', ''application/json''), (''Accept'', ''application/json'')],
              url = ''http://localhost:8000/api/v2/teams/'', body = None\<rparr>"
  have ri: "apply_interceptors (requestInterceptors ?c) (initial_config ?c ''/teams/'' ?opts)
              = Inr ?cfg"
    by (simp add: client_defs)
  let ?late = "\<lparr>clock = 33000, trace = [Fetch 0, Delay 1000, Fetch 31000, Delay 2000, Fetch 33000]\<rparr>"
  let ?once = "\<lparr>clock = 50, trace = [Fetch 0]\<rparr>"

  let ?hang = "\<lambda>(cfg::config) (k::nat). \<lparr>latency = 0, settles = Never\<rparr>"
  have f1: "fetchWithRetry ?c (?hang ?cfg) 1 io_start = (Inl AbortError, ?late)"
    by (simp add: fetchWithRetry.simps fetch_def delay_def client_defs)
  have n1: "Inl AbortError = (Inl AbortError :: js_error + response)
              \<and> error_name AbortError = ''AbortError''"
    by (simp add: AbortError_def)
  have 1: "request ?c ?hang ''/teams/'' ?opts
             = (Inl (APIError (JStr ''Request timeout'') 408 JNull), ?late)"
    using request_failure_shape [where net = ?hang, OF ri f1, THEN conjunct1, THEN spec] n1
    by (rule mp)

  let ?ok = "\<lparr>status = 200, statusText = ''OK'', content_type = Some ''application/json'',
              body_json = Inr (JArr []), body_text = []\<rparr>"
  let ?slow = "\<lambda>(cfg::config) (k::nat). \<lparr>latency = 40000, settles = Responds ?ok\<rparr>"
  have f2: "fetchWithRetry ?c (?slow ?cfg) 1 io_start = (Inl AbortError, ?late)"
    by (simp add: fetchWithRetry.simps fetch_def delay_def client_defs)
  have n2: "settles (?slow ?cfg 1) = Never \<or> timeout ?c \<le> int (latency (?slow ?cfg 1))"
    by (simp add: client_defs)
  have 2: "request ?c ?slow ''/teams/'' ?opts
             = (Inl (APIError (JStr ''Request timeout'') 408 JNull), ?late)"
    using request_failure_shape [where net = ?slow, OF ri f2, THEN conjunct2, THEN conjunct1] n2
    by (rule mp)

  let ?e = "Error ''TypeError'' ''Failed to fetch''"
  let ?down = "\<lambda>(cfg::config) (k::nat). \<lparr>latency = 50, settles = Rejects ?e\<rparr>"
  let ?s3 = "\<lparr>clock = 3150, trace = [Fetch 0, Delay 1000, Fetch 1050, Delay 2000, Fetch 3100]\<rparr>"
  have f3: "fetchWithRetry ?c (?down ?cfg) 1 io_start = (Inl ?e, ?s3)"
    by (simp add: fetchWithRetry.simps fetch_def delay_def client_defs)
  have n3: "Inl ?e = (Inl ?e :: js_error + response) \<and> error_name ?e \<noteq> ''AbortError''"
    by simp
  have 3: "request ?c ?down ''/teams/'' ?opts = (Inl ?e, ?s3)"
    using request_failure_shape [where net = ?down, OF ri f3, THEN conjunct2, THEN conjunct2,
            THEN conjunct1, THEN spec, THEN mp, OF n3]
    by (rule conjunct1)

  let ?se = "Error ''SyntaxError'' ''Unexpected end of JSON input''"
  let ?garbled = "\<lparr>status = 200, statusText = ''OK'', content_type = Some ''application/json'',
                   body_json = Inl ?se, body_text = []\<rparr>"
  let ?gnet = "\<lambda>(cfg::config) (k::nat). \<lparr>latency = 50, settles = Responds ?garbled\<rparr>"
  have f4: "fetchWithRetry ?c (?gnet ?cfg) 1 io_start = (Inr ?garbled, ?once)"
    by (simp add: fetchWithRetry.simps fetch_def delay_def client_defs)
  have n4: "Inr ?garbled = (Inr ?garbled :: js_error + response) \<and> decode ?garbled = Inl ?se
              \<and> error_name ?se \<noteq> ''AbortError''"
    by (simp add: decode_def)
  have 4: "request ?c ?gnet ''/teams/'' ?opts = (Inl ?se, ?once)"
    using request_failure_shape [where net = ?gnet, OF ri f4, THEN conjunct2, THEN conjunct2,
            THEN conjunct2, THEN conjunct1, THEN spec, THEN spec] n4
    by (rule mp)

  let ?ie = "Error ''Error'' ''rejected by interceptor''"
  let ?c' = "addResponseInterceptor ?c (\<lambda>r. Inl ?ie)"
  let ?fine = "\<lambda>(cfg::config) (k::nat). \<lparr>latency = 50, settles = Responds ?ok\<rparr>"
  have ri': "apply_interceptors (requestInterceptors ?c') (initial_config ?c' ''/teams/'' ?opts)
              = Inr ?cfg"
    by (simp add: client_defs addResponseInterceptor_def)
  have f5: "fetchWithRetry ?c' (?fine ?cfg) 1 io_start = (Inr ?ok, ?once)"
    by (simp add: fetchWithRetry.simps fetch_def delay_def client_defs addResponseInterceptor_def)
  have n5: "Inr ?ok = (Inr ?ok :: js_error + response) \<and> decode ?ok = Inr (JArr [])
              \<and> apply_interceptors (responseInterceptors ?c')
                   \<lparr>res_status = status ?ok, res_statusText = statusText ?ok,
                    res_content_type = content_type ?ok, res_data = JArr []\<rparr> = Inl ?ie
              \<and> error_name ?ie \<noteq> ''AbortError''"
    by (simp add: decode_def client_defs addResponseInterceptor_def)
  have 5: "request ?c' ?fine ''/teams/'' ?opts = (Inl ?ie, ?once)"
    using request_failure_shape [where net = ?fine, OF ri' f5, THEN conjunct2, THEN conjunct2,
            THEN conjunct2, THEN conjunct2, THEN conjunct1, THEN spec, THEN spec, THEN spec] n5
    by (rule mp)

  let ?d = "JObj [(''message'', JStr ''team_id is required'')]"
  let ?r = "\<lparr>status = 400, statusText = ''Bad Request'', content_type = Some ''application/json'',
             body_json = Inr ?d, body_text = []\<rparr>"
  let ?bad = "\<lambda>(cfg::config) (k::nat). \<lparr>latency = 50, settles = Responds ?r\<rparr>"
  let ?res = "\<lparr>res_status = 400, res_statusText = ''Bad Request'',
              res_content_type = Some ''application/json'', res_data = ?d\<rparr>"
  have f6: "fetchWithRetry ?c (?bad ?cfg) 1 io_start = (Inr ?r, ?once)"
    by (simp add: fetchWithRetry.simps fetch_def delay_def client_defs)
  have n6: "Inr ?r = (Inr ?r :: js_error + response) \<and> \<not> ok ?r \<and> decode ?r = Inr ?d
              \<and> apply_interceptors (responseInterceptors ?c)
                   \<lparr>res_status = status ?r, res_statusText = statusText ?r,
                    res_content_type = content_type ?r, res_data = ?d\<rparr> = Inr ?res"
    by (simp add: ok_def decode_def client_defs)
  have 6: "request ?c ?bad ''/teams/'' ?opts
             = (Inl (APIError (JStr ''team_id is required'') 400 ?d), ?once)"
    using request_failure_shape [where net = ?bad, OF ri f6, THEN conjunct2, THEN conjunct2,
            THEN conjunct2, THEN conjunct2, THEN conjunct2,
            THEN spec, THEN spec, THEN spec, THEN mp, OF n6]
    by (simp add: js_or_def)
  from 1 2 3 4 5 6 show ?thesis by (intro conjI)
qed

text \<open>
  Claim C8 as stated fails twice. When every attempt ends in a transport failure, \<open>request\<close>
  surfaces the \<open>TypeError\<close> of the last \<open>fetch\<close>, an error with a name and a message and
  neither status nor data. And status 408 is not kept for the timeout: a response of
  status 408 from the server, received after 50 ms, surfaces as an \<open>APIError\<close> of status 408
  as well.
\<close>

theorem failure_shape_counterexample:
  "request (APIClient_new API_CONFIG ''localhost'')
     (\<lambda>cfg k. \<lparr>latency = 50, settles = Rejects (Error ''TypeError'' ''Failed to fetch'')\<rparr>)
     ''/teams/'' \<lparr>opt_method = None, opt_headers = None, opt_body = None\<rparr>
     = (Inl (Error ''TypeError'' ''Failed to fetch''),
        \<lparr>clock = 3150, trace = [Fetch 0, Delay 1000, Fetch 1050, Delay 2000, Fetch 3100]\<rparr>)
   \<and> request (APIClient_new API_CONFIG ''localhost'')
     (\<lambda>cfg k. \<lparr>latency = 50, settles = Responds
         \<lparr>status = 408, statusText = ''Request Timeout'', content_type = None,
          body_json = Inl (Error ''SyntaxError'' ''Unexpected end of JSON input''),
          body_text = []\<rparr>\<rparr>)
     ''/teams/'' \<lparr>opt_method = None, opt_headers = None, opt_body = None\<rparr>
     = (Inl (APIError (JStr ''Request Timeout'') 408 (JStr [])),
        \<lparr>clock = 50, trace = [Fetch 0]\<rparr>)"
  by (simp add: request_defs client_defs)

end
